theory Spec2Isabelle
  imports Main "HOL-Library.Word"
begin

unbundle bit_operations_syntax

section \<open>Machine types shared by the workers of io.c\<close>

type_synonym u8 = "8 word"
type_synonym u16 = "16 word"
type_synonym u32 = "32 word"

text \<open>
  Undefined behaviour of the C program is a value of the model: a function that would
  divide by zero or write outside its buffer returns \<open>Inl\<close> of the fault.
\<close>

datatype fault = DivisionByZero | BufferOverrun

section \<open>Rate pacer: \<open>struct io_sync\<close> and \<open>io_thread_time_sync\<close>\<close>

record timespec =
  tv_sec :: int
  tv_nsec :: int

record io_sync =
  ts0 :: timespec
  frames :: u32
  sampling :: u16

definition timespec_ns :: "timespec \<Rightarrow> int" where
  "timespec_ns t = tv_sec t * 1000000000 + tv_nsec t"

text \<open>
  Modelled from the spec: \<open>difftimespec\<close> lives in utils.c, which is not among the
  sources. The spec has the pacer "compute clock-elapsed since ts0" and, "if target >
  elapsed, sleep the difference": the helper stores the distance between two time points
  and returns the sign of (second minus first).
\<close>

definition difftimespec :: "timespec \<Rightarrow> timespec \<Rightarrow> int \<times> timespec" where
  "difftimespec ts1 ts2 =
     (let d = timespec_ns ts2 - timespec_ns ts1
      in (sgn d, \<lparr>tv_sec = \<bar>d\<bar> div 1000000000, tv_nsec = \<bar>d\<bar> mod 1000000000\<rparr>))"

text \<open>
  \<open>io_thread_time_sync io_sync frames now\<close>: \<open>now\<close> is what
  \<open>clock_gettime(CLOCK_MONOTONIC)\<close> answers. The result is the updated pacing
  state, the returned \<open>int\<close> and the argument of \<open>nanosleep\<close> when it is called.
  \<open>sec\<close>, \<open>res\<close> and the products are \<open>unsigned int\<close>; the result is converted to
  \<open>int\<close>.
\<close>

definition io_thread_time_sync ::
  "io_sync \<Rightarrow> u32 \<Rightarrow> timespec \<Rightarrow> fault + (io_sync \<times> int \<times> timespec option)" where
  "io_thread_time_sync s frames0 now =
     (if frames0 = 0 then Inr (s, 0, None)
      else if sampling s = 0 then Inl DivisionByZero
      else
        let smp = (ucast (sampling s) :: u32);
            sec = frames0 div smp;
            res = frames0 mod smp;
            duration = sint (1000000 * sec + (1000000 div smp) * res);
            s' = s\<lparr>frames := frames s + frames0\<rparr>;
            fr = frames s';
            overframes = smp div 100;
            fr' = (if fr > overframes then fr - overframes else 0);
            ts_audio = \<lparr>tv_sec = uint (fr' div smp),
                        tv_nsec = uint ((1000000000 div smp) * (fr' mod smp))\<rparr>;
            ts_clock = snd (difftimespec (ts0 s') now);
            (r, ts) = difftimespec ts_clock ts_audio
        in Inr (s', duration, if r > 0 then Some ts else None))"

text \<open>
  The spec's formula for the returned duration, and the two quantities the pacer compares:
  the audio time of the frames sent so far less 10 ms worth of frames, and the time elapsed
  since the reference point, both in nanoseconds.
\<close>

definition spec_duration :: "nat \<Rightarrow> nat \<Rightarrow> nat" where
  "spec_duration n S = 1000000 * (n div S) + (1000000 div S) * (n mod S)"

definition target_ns :: "nat \<Rightarrow> nat \<Rightarrow> int" where
  "target_ns n S =
     int (((n - S div 100) div S) * 1000000000 + (1000000000 div S) * ((n - S div 100) mod S))"

definition elapsed_ns :: "timespec \<Rightarrow> timespec \<Rightarrow> int" where
  "elapsed_ns t0 now = \<bar>timespec_ns now - timespec_ns t0\<bar>"

section \<open>C strings\<close>

text \<open>
  A \<open>char\<close> array is a list of its bytes; the C string it holds is the part before the
  first NUL. Library functions work on the string held (a \<open>string\<close> without NUL).
\<close>

abbreviation NUL :: char where "NUL \<equiv> CHR 0x00"

definition c_str :: "string \<Rightarrow> string" where
  "c_str buf = takeWhile (\<lambda>c. c \<noteq> NUL) buf"

definition isspace :: "char \<Rightarrow> bool" where
  "isspace c = (c = CHR '' '' \<or> (9 \<le> (of_char c :: nat) \<and> (of_char c :: nat) \<le> 13))"

definition isdigit :: "char \<Rightarrow> bool" where
  "isdigit c = (48 \<le> (of_char c :: nat) \<and> (of_char c :: nat) \<le> 57)"

definition tolower :: "char \<Rightarrow> char" where
  "tolower c = (if 65 \<le> (of_char c :: nat) \<and> (of_char c :: nat) \<le> 90
                then char_of ((of_char c :: nat) + 32) else c)"

definition strncasecmp :: "string \<Rightarrow> string \<Rightarrow> nat \<Rightarrow> bool" where
  \<comment> \<open>\<open>True\<close> when the C function returns 0\<close>
  "strncasecmp s1 s2 n = (map tolower (take n s1) = map tolower (take n s2))"

definition strchr_idx :: "string \<Rightarrow> char \<Rightarrow> nat option" where
  \<comment> \<open>\<open>strstr\<close> with a one-character needle: the index of the first occurrence\<close>
  "strchr_idx s c = (if c \<in> set s then Some (length (takeWhile (\<lambda>x. x \<noteq> c) s)) else None)"

definition strncpy :: "string \<Rightarrow> string \<Rightarrow> nat \<Rightarrow> string" where
  \<comment> \<open>the array \<open>dest\<close> after \<open>strncpy(dest, src, n)\<close>, for \<open>n\<close> within the array\<close>
  "strncpy dest src n = take n src @ replicate (n - length src) NUL @ drop n dest"

definition digit_val :: "char \<Rightarrow> nat" where
  "digit_val c = (of_char c :: nat) - 48"

definition parse_digits :: "string \<Rightarrow> nat" where
  "parse_digits s = foldl (\<lambda>acc c. 10 * acc + digit_val c) 0 (takeWhile isdigit s)"

definition parse_sign :: "string \<Rightarrow> bool \<times> string" where
  \<comment> \<open>leading white space, then an optional sign: (negative, rest)\<close>
  "parse_sign s =
     (case dropWhile isspace s of
        [] \<Rightarrow> (False, [])
      | c # r \<Rightarrow> if c = CHR ''-'' then (True, r) else if c = CHR ''+'' then (False, r)
                 else (False, c # r))"

definition strtoul :: "string \<Rightarrow> nat" where
  \<comment> \<open>\<open>strtoul(s, NULL, 10)\<close> with a 64-bit \<open>unsigned long\<close>\<close>
  "strtoul s =
     (let (neg, r) = parse_sign s; v = parse_digits r
      in if v \<ge> 18446744073709551616 then 18446744073709551615
         else if neg then (18446744073709551616 - v) mod 18446744073709551616 else v)"

definition atoi :: "string \<Rightarrow> int" where
  \<comment> \<open>\<open>(int) strtol(s, NULL, 10)\<close>: saturated to \<open>long\<close>, then cut to 32 bits\<close>
  "atoi s =
     (let (neg, r) = parse_sign s; v = int (parse_digits r);
          l = (if neg then max (- 9223372036854775808) (- v) else min 9223372036854775807 v)
      in signed_take_bit 31 l)"

definition digit_char :: "nat \<Rightarrow> char" where
  "digit_char d = ''0123456789'' ! d"

fun dec :: "nat \<Rightarrow> string" where
  \<comment> \<open>what \<open>%u\<close> prints\<close>
  "dec n = (if n < 10 then [digit_char n] else dec (n div 10) @ [digit_char (n mod 10)])"

declare dec.simps [simp del]

definition strsep :: "string option \<Rightarrow> string option \<times> string option" where
  \<comment> \<open>\<open>strsep(&ptr, ",")\<close>: (the token returned, the new \<open>ptr\<close>)\<close>
  "strsep ptr =
     (case ptr of
        None \<Rightarrow> (None, None)
      | Some s \<Rightarrow> (Some (takeWhile (\<lambda>c. c \<noteq> CHR '','') s),
                   if CHR '','' \<in> set s then Some (tl (dropWhile (\<lambda>c. c \<noteq> CHR '','') s))
                   else None))"

fun split_comma :: "string \<Rightarrow> string list" where
  "split_comma [] = [[]]"
| "split_comma (c # s) =
     (if c = CHR '','' then [] # split_comma s
      else (case split_comma s of [] \<Rightarrow> [[c]] | t # ts \<Rightarrow> (c # t) # ts))"

definition g_strsplit :: "string \<Rightarrow> string list" where
  \<comment> \<open>\<open>g_strsplit(s, ",", 0)\<close>: the empty string gives the empty vector\<close>
  "g_strsplit s = (if s = [] then [] else split_comma s)"

section \<open>AT commands: \<open>struct at_command\<close> and \<open>at_parse\<close>\<close>

datatype at_cmd_type = AT_CMD_TYPE_SET | AT_CMD_TYPE_GET | AT_CMD_TYPE_TEST

definition AT_MAX_CMD_SIZE :: nat where "AT_MAX_CMD_SIZE = 16"
definition AT_MAX_VALUE_SIZE :: nat where "AT_MAX_VALUE_SIZE = 64"

text \<open>The fields \<open>type\<close>, \<open>command[16]\<close> and \<open>value[64]\<close> of \<open>struct at_command\<close>.\<close>

record at_command =
  cmd_type :: at_cmd_type
  cmd_command :: string
  cmd_value :: string

text \<open>
  The two loops at the head of \<open>at_parse\<close>: \<open>s\<close> skips the initial white space,
  and the trailing white space of what is left is overwritten with NULs.
\<close>

definition at_trim :: "string \<Rightarrow> string" where
  "at_trim str = rev (dropWhile isspace (rev (dropWhile isspace str)))"

text \<open>
  \<open>at_parse str cmd\<close> takes the C string held by \<open>str\<close> and the output struct as the
  caller passed it, and gives the returned \<open>int\<close> with the struct as it is left. Both
  arrays are cleared before anything is looked at. A command name longer than the
  \<open>command\<close> array makes \<open>strncpy\<close> write beyond it: that is the fault.
  (The function also writes NULs over the trailing white space of \<open>str\<close>.)
\<close>

definition at_parse :: "string \<Rightarrow> at_command \<Rightarrow> fault + (int \<times> at_command)" where
  "at_parse str cmd0 =
     (let cmd = cmd0\<lparr>cmd_command := replicate AT_MAX_CMD_SIZE NUL,
                     cmd_value := replicate AT_MAX_VALUE_SIZE NUL\<rparr>;
          s = at_trim str
      in if \<not> strncasecmp s ''AT'' 2 then Inr (- 1, cmd)
         else
           (case strchr_idx s (CHR ''='') of
              Some equal \<Rightarrow>
                if equal - 2 > AT_MAX_CMD_SIZE then Inl BufferOverrun
                else
                  let cmd = cmd\<lparr>cmd_command := strncpy (cmd_command cmd) (drop 2 s) (equal - 2)\<rparr>
                  in if take 1 (drop (equal + 1) s) = ''?''
                     then Inr (0, cmd\<lparr>cmd_type := AT_CMD_TYPE_TEST\<rparr>)
                     else Inr (0, cmd\<lparr>cmd_type := AT_CMD_TYPE_SET,
                                       cmd_value := strncpy (cmd_value cmd) (drop (equal + 1) s)
                                                      (AT_MAX_VALUE_SIZE - 1)\<rparr>)
            | None \<Rightarrow>
                let cmd = cmd\<lparr>cmd_type := AT_CMD_TYPE_GET\<rparr>
                in (case strchr_idx s (CHR ''?'') of
                      Some question \<Rightarrow>
                        if question - 2 > AT_MAX_CMD_SIZE then Inl BufferOverrun
                        else Inr (0, cmd\<lparr>cmd_command :=
                                           strncpy (cmd_command cmd) (drop 2 s) (question - 2)\<rparr>)
                    | None \<Rightarrow> Inr (- 1, cmd))))"

section \<open>The RFCOMM worker: one turn of the loop of \<open>io_thread_rfcomm\<close>\<close>

datatype errno = EINTR | EPIPE | EBADF | ENXIO | EAGAIN | ECONNABORTED | ECONNRESET | ENOTCONN
  | ETIMEDOUT | ENOMEM | EIO

datatype transport_state = TRANSPORT_IDLE | TRANSPORT_PENDING | TRANSPORT_ACTIVE | TRANSPORT_ABORTED

definition SCO_CODEC_CVSD :: nat where "SCO_CODEC_CVSD = 1"
definition SCO_CODEC_MSBC :: nat where "SCO_CODEC_MSBC = 2"

definition HFP_AG_FEAT_CODEC :: u32 where "HFP_AG_FEAT_CODEC = push_bit 9 1"
definition HFP_HF_FEAT_CODEC :: u32 where "HFP_HF_FEAT_CODEC = push_bit 7 1"
definition HFP_AG_FEAT_ECS :: u32 where "HFP_AG_FEAT_ECS = push_bit 6 1"
definition HFP_AG_FEATURES :: u32 where "HFP_AG_FEATURES = HFP_AG_FEAT_ECS"

text \<open>
  The fields of the paired SCO transport (\<open>t->rfcomm.sco->sco\<close>) and of the device
  (\<open>t->device->xapl\<close>) that the worker reads and writes. transport.h is not among the
  sources: the gains are compared with \<open>uint8_t\<close> locals and the features are assigned
  from a \<open>uint32_t\<close>; the Apple accessory fields keep the value assigned to them.
\<close>

record sco_t =
  mic_gain :: u8
  spk_gain :: u8
  codec :: nat
  hf_features :: u32

record xapl_t =
  vendor_id :: nat
  product_id :: nat
  version :: nat
  features :: nat
  accev_battery :: int
  accev_docked :: int

text \<open>
  What the worker holds between two turns of its loop: its last-known gains (the locals
  \<open>mic_gain\<close> and \<open>spk_gain\<close>), the shared fields, and the transport state.
\<close>

record rfcomm_worker =
  w_mic_gain :: u8
  w_spk_gain :: u8
  w_sco :: sco_t
  w_xapl :: xapl_t
  w_state :: transport_state

text \<open>What \<open>poll\<close> and the following \<open>read\<close> of the RFCOMM socket bring.\<close>

datatype rfcomm_input = PollError | PollEvent | ReadError errno | ReadData string

definition CRLF :: string where "CRLF = [CHR 0x0D, CHR 0x0A]"

definition io_thread_write_at_response :: "string \<Rightarrow> string" where
  \<comment> \<open>the bytes handed to \<open>write\<close>: \<open>snprintf(buffer, 256, "\r\n%s\r\n", msg)\<close>\<close>
  "io_thread_write_at_response msg = take 255 (CRLF @ msg @ CRLF)"

definition quoted :: "string \<Rightarrow> string" where
  "quoted s = CHR 0x22 # s @ [CHR 0x22]"

definition cind_test_response :: string where
  "cind_test_response =
     ''+CIND: ('' @ quoted ''call'' @ '',(0,1))'' @
     '',('' @ quoted ''callsetup'' @ '',(0-3))'' @
     '',('' @ quoted ''service'' @ '',(0-1))'' @
     '',('' @ quoted ''signal'' @ '',(0-5))'' @
     '',('' @ quoted ''roam'' @ '',(0,1))'' @
     '',('' @ quoted ''battchg'' @ '',(0-5))'' @
     '',('' @ quoted ''callheld'' @ '',(0-2))''"

fun accev_loop :: "nat \<Rightarrow> string option \<Rightarrow> xapl_t \<Rightarrow> xapl_t" where
  "accev_loop 0 ptr x = x"
| "accev_loop (Suc count) None x = x"
| "accev_loop (Suc count) (Some s) x =
     (let (tok, ptr) = strsep (Some s);
          tmp = (case tok of Some (c # _) \<Rightarrow> c | _ \<Rightarrow> NUL)
      in if tmp = CHR ''1'' then
           (case strsep ptr of
              (Some v, ptr') \<Rightarrow> accev_loop count ptr' (x\<lparr>accev_battery := atoi v\<rparr>)
            | (None, ptr') \<Rightarrow> accev_loop count ptr' x)
         else if tmp = CHR ''2'' then
           (case strsep ptr of
              (Some v, ptr') \<Rightarrow> accev_loop count ptr' (x\<lparr>accev_docked := atoi v\<rparr>)
            | (None, ptr') \<Rightarrow> accev_loop count ptr' x)
         else accev_loop count (snd (strsep ptr)) x)"

definition iphoneaccev :: "string \<Rightarrow> xapl_t \<Rightarrow> xapl_t" where
  "iphoneaccev v x =
     (let (tok, ptr) = strsep (Some v);
          count = nat ((case tok of Some k \<Rightarrow> atoi k | None \<Rightarrow> 0) mod 18446744073709551616)
      in accev_loop count ptr x)"

text \<open>
  The dispatch on a parsed command. \<open>msbc\<close> says whether the build has
  \<open>ENABLE_MSBC\<close>; \<open>sscanf_xapl\<close> stands for the C library's
  \<open>sscanf(value, "%x-%x-%u,%u", ...)\<close>, giving the four numbers when all four convert.
  The result is the worker, and the messages written to the socket in order.
\<close>

definition rfcomm_dispatch ::
  "bool \<Rightarrow> (string \<Rightarrow> (nat \<times> nat \<times> nat \<times> nat) option) \<Rightarrow> rfcomm_worker \<Rightarrow> at_command
     \<Rightarrow> rfcomm_worker \<times> string list" where
  "rfcomm_dispatch msbc sscanf_xapl w at =
     (let command = c_str (cmd_command at);
          val = c_str (cmd_value at);
          ty = cmd_type at;
          ok = io_thread_write_at_response ''OK'';
          err = io_thread_write_at_response ''ERROR''
      in if command = ''RING'' then (w, [ok])
         else if command = ''+CKPD'' \<and> atoi val = 200 then (w, [ok])
         else if command = ''+VGM'' then
           (w\<lparr>w_mic_gain := word_of_int (atoi val),
               w_sco := (w_sco w)\<lparr>mic_gain := word_of_int (atoi val)\<rparr>\<rparr>, [ok])
         else if command = ''+VGS'' then
           (w\<lparr>w_spk_gain := word_of_int (atoi val),
               w_sco := (w_sco w)\<lparr>spk_gain := word_of_int (atoi val)\<rparr>\<rparr>, [ok])
         else if command = ''+IPHONEACCEV'' then
           (w\<lparr>w_xapl := iphoneaccev val (w_xapl w)\<rparr>, [ok])
         else if command = ''+XAPL'' then
           (case sscanf_xapl val of
              Some (vendor, product, vers, feat) \<Rightarrow>
                (w\<lparr>w_xapl := (w_xapl w)\<lparr>vendor_id := vendor, product_id := product,
                                           version := vers, features := feat\<rparr>\<rparr>,
                 [io_thread_write_at_response ''+XAPL=BlueALSA,0''])
            | None \<Rightarrow> (w, [err]))
         else if command = ''+BRSF'' then
           (let hf = (word_of_nat (strtoul val) :: u32);
                codec_neg = (msbc \<and> hf AND HFP_HF_FEAT_CODEC \<noteq> 0);
                ag = (if codec_neg then HFP_AG_FEATURES OR HFP_AG_FEAT_CODEC else HFP_AG_FEATURES);
                sco1 = (if codec_neg then w_sco w else (w_sco w)\<lparr>codec := SCO_CODEC_CVSD\<rparr>)
            in (w\<lparr>w_sco := sco1\<lparr>hf_features := hf\<rparr>\<rparr>,
                [io_thread_write_at_response (take 63 (''+BRSF: '' @ dec (unat ag))), ok]))
         else if command = ''+BAC'' \<and> ty = AT_CMD_TYPE_SET then
           (if list_ex (\<lambda>c. (word_of_nat (strtoul c) :: u32) = word_of_nat SCO_CODEC_MSBC)
                 (g_strsplit val)
            then (w\<lparr>w_sco := (w_sco w)\<lparr>codec := SCO_CODEC_MSBC\<rparr>\<rparr>, [ok])
            else (w, [ok]))
         else if command = ''+CIND'' then
           (if ty = AT_CMD_TYPE_GET then
              (w, [io_thread_write_at_response ''+CIND: 0,0,1,4,0,4,0'', ok])
            else if ty = AT_CMD_TYPE_TEST then
              (w, [io_thread_write_at_response cind_test_response, ok])
            else (w, [ok]))
         else if command = ''+CMER'' \<and> ty = AT_CMD_TYPE_SET then
           (w, ok # (if codec (w_sco w) \<noteq> SCO_CODEC_CVSD
                     then [io_thread_write_at_response
                             (take 63 (''+BCS: '' @ dec (codec (w_sco w))))]
                     else []))
         else if command = ''+BCS'' \<and> ty = AT_CMD_TYPE_SET then (w, [ok])
         else if command = ''+BTRH'' \<and> ty = AT_CMD_TYPE_GET then (w, [ok])
         else if command = ''+NREC'' \<and> ty = AT_CMD_TYPE_SET then (w, [ok])
         else if command = ''+CCWA'' \<and> ty = AT_CMD_TYPE_SET then (w, [ok])
         else if command = ''+BIA'' \<and> ty = AT_CMD_TYPE_SET then (w, [ok])
         else if command = ''+CHLD'' \<and> ty = AT_CMD_TYPE_TEST then
           (w, [io_thread_write_at_response ''+CHLD: (0,1,2,3)'', ok])
         else (w, [err]))"

text \<open>
  The event branch: the last-known gains are compared with the fields of the paired SCO
  transport, and an unsolicited response is written for each that changed.
\<close>

definition rfcomm_event :: "rfcomm_worker \<Rightarrow> rfcomm_worker \<times> string list" where
  "rfcomm_event w =
     (let (w1, out1) =
            (if w_mic_gain w \<noteq> mic_gain (w_sco w)
             then (w\<lparr>w_mic_gain := mic_gain (w_sco w)\<rparr>,
                   [io_thread_write_at_response (''+VGM='' @ dec (unat (mic_gain (w_sco w))))])
             else (w, []));
          (w2, out2) =
            (if w_spk_gain w1 \<noteq> spk_gain (w_sco w1)
             then (w1\<lparr>w_spk_gain := spk_gain (w_sco w1)\<rparr>,
                   [io_thread_write_at_response (''+VGS='' @ dec (unat (w_mic_gain w1)))])
             else (w1, []))
      in (w2, out1 @ out2))"

text \<open>
  One turn of the loop. \<open>at0\<close> is the uninitialised \<open>struct at_command at\<close> of the
  turn. The result is the worker, the messages written, and whether the loop goes on
  (\<open>False\<close> is \<open>goto fail\<close>). A read that fills the 64-byte buffer leaves it without a
  terminating NUL, and \<open>at_parse\<close> reads beyond it.
\<close>

definition rfcomm_turn ::
  "bool \<Rightarrow> (string \<Rightarrow> (nat \<times> nat \<times> nat \<times> nat) option) \<Rightarrow> at_command \<Rightarrow> rfcomm_worker
     \<Rightarrow> rfcomm_input \<Rightarrow> fault + (rfcomm_worker \<times> string list \<times> bool)" where
  "rfcomm_turn msbc sscanf_xapl at0 w inp =
     (case inp of
        PollError \<Rightarrow> Inr (w, [], False)
      | PollEvent \<Rightarrow> (let (w', out) = rfcomm_event w in Inr (w', out, True))
      | ReadError e \<Rightarrow>
          if e \<in> {ECONNABORTED, ECONNRESET, ENOTCONN, ETIMEDOUT}
          then Inr (w\<lparr>w_state := TRANSPORT_ABORTED\<rparr>, [], False)
          else Inr (w, [], True)
      | ReadData bytes \<Rightarrow>
          (let buffer = take 64 bytes @ replicate (64 - length bytes) NUL
           in if NUL \<notin> set buffer then Inl BufferOverrun
              else
                (case at_parse (c_str buffer) at0 of
                   Inl f \<Rightarrow> Inl f
                 | Inr (r, at) \<Rightarrow>
                     if r \<noteq> 0 then Inr (w, [], True)
                     else (let (w', out) = rfcomm_dispatch msbc sscanf_xapl w at
                           in Inr (w', out, True)))))"

text \<open>Values for the worked examples: a struct left by an earlier command, and a worker.\<close>

definition cmd_prev :: at_command where
  "cmd_prev = \<lparr>cmd_type = AT_CMD_TYPE_SET, cmd_command = ''+VGS'' @ replicate 12 NUL,
                cmd_value = ''7'' @ replicate 63 NUL\<rparr>"

definition worker_example :: rfcomm_worker where
  "worker_example =
     \<lparr>w_mic_gain = 3, w_spk_gain = 5,
      w_sco = \<lparr>mic_gain = 3, spk_gain = 9, codec = 2, hf_features = 0\<rparr>,
      w_xapl = \<lparr>vendor_id = 0, product_id = 0, version = 0, features = 0,
                 accev_battery = 0, accev_docked = 0\<rparr>,
      w_state = TRANSPORT_ACTIVE\<rparr>"

section \<open>mSBC framing: \<open>struct msbc_frame\<close>, \<open>struct sbc_state\<close> and the encoder loop\<close>

definition SCO_H2_HDR_LEN :: nat where "SCO_H2_HDR_LEN = 2"
definition MSBC_FRAME_LEN :: nat where "MSBC_FRAME_LEN = 57"
definition SCO_H2_FRAME_LEN :: nat where "SCO_H2_FRAME_LEN = SCO_H2_HDR_LEN + MSBC_FRAME_LEN"
definition MSBC_PCM_LEN :: nat where "MSBC_PCM_LEN = 240"
definition SCO_H2_HDR_0 :: u8 where "SCO_H2_HDR_0 = 0x01"
definition MSBC_SYNC :: u8 where "MSBC_SYNC = 0xAD"

text \<open>
  \<open>struct msbc_frame\<close> is \<open>h2_header[2]\<close>, \<open>payload[57]\<close> and one \<open>padding\<close> byte:
  \<open>sizeof(struct msbc_frame)\<close> is 60, one more than \<open>SCO_H2_FRAME_LEN\<close>.
\<close>

definition sizeof_msbc_frame :: nat where
  "sizeof_msbc_frame = SCO_H2_HDR_LEN + MSBC_FRAME_LEN + 1"

definition h2_header_frame_number :: "u8 list" where
  "h2_header_frame_number = [0x08, 0x38, 0xc8, 0xf8]"

definition msbc_zero :: "u8 list" where
  "msbc_zero =
     [0xad, 0x0, 0x0, 0xc5, 0x0, 0x0, 0x0, 0x0, 0x77, 0x6d, 0xb6, 0xdd,
      0xdb, 0x6d, 0xb7, 0x76, 0xdb, 0x6d, 0xdd, 0xb6, 0xdb, 0x77, 0x6d,
      0xb6, 0xdd, 0xdb, 0x6d, 0xb7, 0x76, 0xdb, 0x6d, 0xdd, 0xb6, 0xdb,
      0x77, 0x6d, 0xb6, 0xdd, 0xdb, 0x6d, 0xb7, 0x76, 0xdb, 0x6d, 0xdd,
      0xb6, 0xdb, 0x77, 0x6d, 0xb6, 0xdd, 0xdb, 0x6d, 0xb7, 0x76, 0xdb,
      0x6c]"

text \<open>
  The encoder half of \<open>struct sbc_state\<close>. \<open>'e\<close> is the state of the libsbc encoder
  (\<open>sbc_t enc\<close>); the counters are \<open>size_t\<close>, \<open>enc_pcm_size\<close> is \<open>ssize_t\<close>.
\<close>

record 'e sbc_state =
  enc :: 'e
  enc_buffer_cnt :: nat
  enc_buffer_size :: nat
  enc_buffer :: "u8 list"
  enc_pcm_buffer_cnt :: nat
  enc_pcm_buffer_size :: nat
  enc_pcm_buffer :: "u8 list"
  enc_pcm_size :: int
  enc_frame_len :: int
  enc_frame_number :: nat

definition size_sub :: "nat \<Rightarrow> nat \<Rightarrow> nat" where
  \<comment> \<open>subtraction of two \<open>size_t\<close>\<close>
  "size_sub a b = (a + 18446744073709551616 - b mod 18446744073709551616) mod 18446744073709551616"

definition size_of_ssize :: "int \<Rightarrow> nat" where
  \<comment> \<open>an \<open>ssize_t\<close> converted for a comparison with a \<open>size_t\<close>\<close>
  "size_of_ssize i = nat (i mod 18446744073709551616)"

definition write_at :: "u8 list \<Rightarrow> nat \<Rightarrow> u8 list \<Rightarrow> u8 list" where
  \<comment> \<open>the array \<open>buf\<close> after \<open>bytes\<close> are stored from offset \<open>off\<close> on, within bounds\<close>
  "write_at buf off bytes = take off buf @ bytes @ drop (off + length bytes) buf"

text \<open>
  libsbc's \<open>sbc_encode\<close> is a parameter: from the encoder state, the input bytes on offer
  and the room in the output it gives the new state, the returned length (negative for an
  error) and the bytes stored in the output.
\<close>

type_synonym 'e sbc_encode_t = "'e \<Rightarrow> u8 list \<Rightarrow> nat \<Rightarrow> 'e \<times> int \<times> u8 list"

text \<open>
  The loop of \<open>iothread_encode_msbc_frames\<close>, from the state and \<open>pcm_consumed\<close>.
  \<open>silence\<close> says whether the build has \<open>SILENCE\<close>. The result is the state, the
  bytes of PCM consumed, and whether the loop ran to its end (\<open>False\<close>: the \<open>return\<close>
  on an encoder error). A frame that does not fit the array, and a frame number outside
  the table, are faults.
\<close>

function encode_loop ::
  "'e sbc_encode_t \<Rightarrow> bool \<Rightarrow> 'e sbc_state \<Rightarrow> nat \<Rightarrow> fault + ('e sbc_state \<times> nat \<times> bool)" where
  "encode_loop sbc_encode silence sbc pcm_consumed =
     (if size_sub (enc_pcm_buffer_cnt sbc) pcm_consumed \<ge> size_of_ssize (enc_pcm_size sbc)
         \<and> size_sub (enc_buffer_size sbc) (enc_buffer_cnt sbc) \<ge> SCO_H2_FRAME_LEN
      then
        if enc_buffer_cnt sbc + SCO_H2_FRAME_LEN > length (enc_buffer sbc)
           \<or> enc_frame_number sbc \<ge> length h2_header_frame_number
        then Inl BufferOverrun
        else
          let r = sbc_encode (enc sbc)
                    (take (size_sub (enc_pcm_buffer_cnt sbc) pcm_consumed)
                       (drop pcm_consumed (enc_pcm_buffer sbc)))
                    MSBC_FRAME_LEN;
              len = fst (snd r);
              written = take MSBC_FRAME_LEN (snd (snd r))
          in if len < 0 then Inr (sbc\<lparr>enc := fst r\<rparr>, pcm_consumed, False)
             else
               encode_loop sbc_encode silence
                 (sbc\<lparr>enc := fst r,
                      enc_buffer :=
                        write_at (enc_buffer sbc) (enc_buffer_cnt sbc)
                          ([SCO_H2_HDR_0, h2_header_frame_number ! enc_frame_number sbc] @
                           (if silence then msbc_zero else written)),
                      enc_frame_number := (enc_frame_number sbc + 1) mod 4,
                      enc_buffer_cnt := enc_buffer_cnt sbc + sizeof_msbc_frame\<rparr>)
                 ((pcm_consumed + nat len) mod 18446744073709551616)
      else Inr (sbc, pcm_consumed, True))"
  by pat_completeness auto

lemma length_write_at:
  "off + length bytes \<le> length buf \<Longrightarrow> length (write_at buf off bytes) = length buf"
  by (simp add: write_at_def)

lemma length_msbc_zero: "length msbc_zero = 57"
  by (simp add: msbc_zero_def)

termination encode_loop
proof (relation "measure (\<lambda>(e, sil, sbc, c). length (enc_buffer sbc) + 60 - enc_buffer_cnt sbc)")
  show "wf (measure (\<lambda>(e::'e sbc_encode_t, sil::bool, sbc::'e sbc_state, c::nat).
               length (enc_buffer sbc) + 60 - enc_buffer_cnt sbc))"
    by simp
next
  fix sbc_encode :: "'e sbc_encode_t" and silence and sbc :: "'e sbc_state" and pcm_consumed
    and r :: "'e \<times> int \<times> u8 list" and len :: int and written
  assume fits: "\<not> (length (enc_buffer sbc) < enc_buffer_cnt sbc + SCO_H2_FRAME_LEN
                    \<or> length h2_header_frame_number \<le> enc_frame_number sbc)"
    and w: "written = take MSBC_FRAME_LEN (snd (snd r))"
  let ?bytes = "[SCO_H2_HDR_0, h2_header_frame_number ! enc_frame_number sbc] @
                  (if silence then msbc_zero else written)"
  have "length ?bytes \<le> 59"
    by (simp add: w MSBC_FRAME_LEN_def length_msbc_zero)
  with fits have "enc_buffer_cnt sbc + length ?bytes \<le> length (enc_buffer sbc)"
    by (simp add: SCO_H2_FRAME_LEN_def SCO_H2_HDR_LEN_def MSBC_FRAME_LEN_def)
  then have "length (write_at (enc_buffer sbc) (enc_buffer_cnt sbc) ?bytes) = length (enc_buffer sbc)"
    by (rule length_write_at)
  with fits show "((sbc_encode, silence,
          sbc\<lparr>enc := fst r,
               enc_buffer := write_at (enc_buffer sbc) (enc_buffer_cnt sbc) ?bytes,
               enc_frame_number := (enc_frame_number sbc + 1) mod 4,
               enc_buffer_cnt := enc_buffer_cnt sbc + sizeof_msbc_frame\<rparr>,
          (pcm_consumed + nat len) mod 18446744073709551616),
         sbc_encode, silence, sbc, pcm_consumed)
        \<in> measure (\<lambda>(e, sil, sbc, c). length (enc_buffer sbc) + 60 - enc_buffer_cnt sbc)"
    by (simp add: sizeof_msbc_frame_def SCO_H2_FRAME_LEN_def SCO_H2_HDR_LEN_def MSBC_FRAME_LEN_def;
        arith)
qed

declare encode_loop.simps [simp del]

text \<open>
  \<open>iothread_encode_msbc_frames\<close>: the loop, then the PCM left over is moved to the front
  of its buffer. On an encoder error the function returns from inside the loop, before the
  move.
\<close>

definition iothread_encode_msbc_frames ::
  "'e sbc_encode_t \<Rightarrow> bool \<Rightarrow> 'e sbc_state \<Rightarrow> fault + 'e sbc_state" where
  "iothread_encode_msbc_frames sbc_encode silence sbc =
     (case encode_loop sbc_encode silence sbc 0 of
        Inl f \<Rightarrow> Inl f
      | Inr (sbc', pcm_consumed, finished) \<Rightarrow>
          if \<not> finished then Inr sbc'
          else
            let n = size_sub (enc_pcm_buffer_cnt sbc') pcm_consumed
            in if pcm_consumed + n > length (enc_pcm_buffer sbc') then Inl BufferOverrun
               else Inr (sbc'\<lparr>enc_pcm_buffer :=
                                 write_at (enc_pcm_buffer sbc') 0
                                   (take n (drop pcm_consumed (enc_pcm_buffer sbc'))),
                               enc_pcm_buffer_cnt := n\<rparr>))"

text \<open>
  \<open>iothread_write_encoded_data\<close>: \<open>wr\<close> is what \<open>write(bt_fd, enc_buffer, length)\<close>
  answers, the number of bytes taken or an error. The result is the returned \<open>int\<close>, the
  state, and the bytes that went to the socket.
\<close>

definition iothread_write_encoded_data ::
  "(errno + nat) \<Rightarrow> 'e sbc_state \<Rightarrow> nat \<Rightarrow> fault + (int \<times> 'e sbc_state \<times> u8 list)" where
  "iothread_write_encoded_data wr sbc len =
     (if enc_buffer_cnt sbc < len then Inr (- 1, sbc, [])
      else if len > length (enc_buffer sbc) then Inl BufferOverrun
      else
        (case wr of
           Inl e \<Rightarrow> Inr (- 1, sbc, [])
         | Inr written \<Rightarrow>
             let n = size_sub (enc_buffer_cnt sbc) written
             in if written + n > length (enc_buffer sbc) then Inl BufferOverrun
                else Inr (0, sbc\<lparr>enc_buffer := write_at (enc_buffer sbc) 0
                                                  (take n (drop written (enc_buffer sbc))),
                                enc_buffer_cnt := n\<rparr>,
                          take written (enc_buffer sbc))))"

text \<open>
  Successive calls \<open>iothread_write_encoded_data(pfds[1].fd, sbc, length)\<close>, as
  \<open>io_thread_sco\<close> makes them (with the length 24) each time the socket is readable, one
  answer of \<open>write\<close> for each call. The result is the state and the bytes that went to
  the socket, in the order they went.
\<close>

fun write_encoded_stream ::
  "(errno + nat) list \<Rightarrow> 'e sbc_state \<Rightarrow> nat \<Rightarrow> fault + ('e sbc_state \<times> u8 list)" where
  "write_encoded_stream [] sbc len = Inr (sbc, [])"
| "write_encoded_stream (wr # wrs) sbc len =
     (case iothread_write_encoded_data wr sbc len of
        Inl f \<Rightarrow> Inl f
      | Inr (r, sbc1, out) \<Rightarrow>
          (case write_encoded_stream wrs sbc1 len of
             Inl f \<Rightarrow> Inl f
           | Inr (sbc2, outs) \<Rightarrow> Inr (sbc2, out @ outs)))"

definition write_fits :: "nat \<Rightarrow> (errno + nat) \<Rightarrow> bool" where
  \<comment> \<open>\<open>write\<close> takes no more than the length it is given\<close>
  "write_fits len wr = (case wr of Inl e \<Rightarrow> True | Inr written \<Rightarrow> written \<le> len)"

text \<open>
  A stand-in for libsbc in the worked examples: it takes one block of 240 bytes and gives
  the 57 bytes of an encoded silent frame, or fails when less is offered.
\<close>

definition encode_example :: "unit sbc_encode_t" where
  "encode_example e pcm room = (if length pcm < 240 then (e, - 22, []) else (e, 240, msbc_zero))"

definition sbc_state_example :: "unit sbc_state" where
  "sbc_state_example =
     \<lparr>enc = (), enc_buffer_cnt = 0, enc_buffer_size = 236, enc_buffer = replicate 236 0,
      enc_pcm_buffer_cnt = 480, enc_pcm_buffer_size = 960, enc_pcm_buffer = replicate 960 0,
      enc_pcm_size = 240, enc_frame_len = 57, enc_frame_number = 0\<rparr>"

text \<open>
  What the encoder loop leaves at a frame starting at offset \<open>base\<close> of the output buffer
  \<open>buf\<close>, for the frame number \<open>fn\<close>; \<open>buf0\<close> is the buffer before the call and
  \<open>sync\<close> says whether the first payload byte is known to be the mSBC sync word.
\<close>

definition frame_ok :: "bool \<Rightarrow> u8 list \<Rightarrow> u8 list \<Rightarrow> nat \<Rightarrow> nat \<Rightarrow> bool" where
  "frame_ok sync buf0 buf base fn \<longleftrightarrow>
     buf ! base = 0x01 \<and> buf ! (base + 1) = h2_header_frame_number ! (fn mod 4)
     \<and> (sync \<longrightarrow> buf ! (base + 2) = 0xAD)
     \<and> (base + 59 < length buf0 \<longrightarrow> buf ! (base + 59) = buf0 ! (base + 59))"

section \<open>Worker start-up\<close>

text \<open>
  The fields of \<open>struct ba_transport\<close> that the workers look at before their loops.
  transport.h is not among the sources: the MTUs are printed with \<open>%zu\<close>, so they are
  \<open>size_t\<close>; \<open>release\<close> says whether the release callback is set (not \<open>NULL\<close>);
  \<open>pcm_fd\<close> is \<open>t->a2dp.pcm.fd\<close>.
\<close>

record ba_transport =
  bt_fd :: int
  mtu_read :: nat
  mtu_write :: nat
  release :: bool
  pcm_fd :: int

text \<open>
  What the library and the system answer during start-up: the return value of
  \<open>sbc_init_a2dp\<close>, whether the two \<open>malloc\<close>s give memory, what
  \<open>open(pcm->fifo, O_RDONLY)\<close> returns, and the first call into the AAC library that
  fails, if any.
\<close>

datatype aac_call = Aac_open | Aac_set_param | Aac_init_encode | Aac_info

record init_env =
  sbc_init_a2dp :: int
  malloc_in_buffer :: bool
  malloc_out_buffer :: bool
  open_fifo :: int
  aac_failure :: "aac_call option"

text \<open>
  The routines that \<open>pthread_cleanup_pop(1)\<close> runs on the way out, in the order they
  run. \<open>io_thread_release\<close> calls the release callback when it is set.
\<close>

datatype cleanup = Release_callback | Sbc_finish | Free_in_buffer | Free_out_buffer
  | Aac_decoder_close | Aac_encoder_close | Free_pcm_buffer | Free_sbc

datatype worker_start = Enter_loop | Exit_thread "cleanup list"

definition io_thread_release :: "ba_transport \<Rightarrow> cleanup list" where
  "io_thread_release t = (if release t then [Release_callback] else [])"

definition io_thread_open_pcm_read :: "int \<Rightarrow> int \<Rightarrow> int \<times> int" where
  \<comment> \<open>from \<open>pcm->fd\<close> and what \<open>open\<close> would return: (return value, \<open>pcm->fd\<close>)\<close>
  "io_thread_open_pcm_read fd opened =
     (if fd = - 1 then (if opened = - 1 then (- 1, - 1) else (0, opened)) else (0, fd))"

definition io_thread_a2dp_sink_sbc_start :: "ba_transport \<Rightarrow> init_env \<Rightarrow> worker_start" where
  "io_thread_a2dp_sink_sbc_start t env =
     (if bt_fd t = - 1 then Exit_thread (io_thread_release t)
      else if mtu_read t \<le> 0 then Exit_thread (io_thread_release t)
      else if sbc_init_a2dp env \<noteq> 0 then Exit_thread (io_thread_release t)
      else if \<not> malloc_in_buffer env \<or> \<not> malloc_out_buffer env
      then Exit_thread ([Free_out_buffer, Free_in_buffer, Sbc_finish] @ io_thread_release t)
      else Enter_loop)"

definition io_thread_a2dp_source_sbc_start :: "ba_transport \<Rightarrow> init_env \<Rightarrow> worker_start" where
  "io_thread_a2dp_source_sbc_start t env =
     (if sbc_init_a2dp env \<noteq> 0 then Exit_thread (io_thread_release t)
      else if \<not> malloc_in_buffer env \<or> \<not> malloc_out_buffer env
      then Exit_thread ([Free_out_buffer, Free_in_buffer, Sbc_finish] @ io_thread_release t)
      else if fst (io_thread_open_pcm_read (pcm_fd t) (open_fifo env)) = - 1
      then Exit_thread ([Free_out_buffer, Free_in_buffer, Sbc_finish] @ io_thread_release t)
      else Enter_loop)"

definition io_thread_a2dp_sink_aac_start :: "ba_transport \<Rightarrow> init_env \<Rightarrow> worker_start" where
  "io_thread_a2dp_sink_aac_start t env =
     (if bt_fd t = - 1 then Exit_thread (io_thread_release t)
      else if mtu_read t \<le> 0 then Exit_thread (io_thread_release t)
      else if aac_failure env = Some Aac_open then Exit_thread (io_thread_release t)
      else if aac_failure env = Some Aac_set_param
      then Exit_thread (Aac_decoder_close # io_thread_release t)
      else if \<not> malloc_in_buffer env \<or> \<not> malloc_out_buffer env
      then Exit_thread ([Free_out_buffer, Free_in_buffer, Aac_decoder_close] @ io_thread_release t)
      else Enter_loop)"

definition io_thread_a2dp_source_aac_start :: "ba_transport \<Rightarrow> init_env \<Rightarrow> worker_start" where
  "io_thread_a2dp_source_aac_start t env =
     (if aac_failure env = Some Aac_open then Exit_thread (io_thread_release t)
      else if aac_failure env \<noteq> None
      then Exit_thread (Aac_encoder_close # io_thread_release t)
      else if \<not> malloc_in_buffer env \<or> \<not> malloc_out_buffer env
      then Exit_thread ([Free_out_buffer, Free_in_buffer, Aac_encoder_close] @ io_thread_release t)
      else if fst (io_thread_open_pcm_read (pcm_fd t) (open_fifo env)) = - 1
      then Exit_thread ([Free_out_buffer, Free_in_buffer, Aac_encoder_close] @ io_thread_release t)
      else Enter_loop)"

definition io_thread_rfcomm_start :: "ba_transport \<Rightarrow> init_env \<Rightarrow> worker_start" where
  "io_thread_rfcomm_start t env = Enter_loop"

definition io_thread_sco_start :: "ba_transport \<Rightarrow> init_env \<Rightarrow> worker_start" where
  \<comment> \<open>\<open>malloc_in_buffer\<close> stands for the \<open>malloc\<close> of \<open>pcm_buffer\<close>\<close>
  "io_thread_sco_start t env =
     (if \<not> malloc_in_buffer env then Exit_thread [Free_sbc, Free_pcm_buffer] else Enter_loop)"

definition transport_example :: ba_transport where
  "transport_example = \<lparr>bt_fd = - 1, mtu_read = 0, mtu_write = 0, release = True, pcm_fd = - 1\<rparr>"

definition init_env_example :: init_env where
  "init_env_example = \<lparr>sbc_init_a2dp = 0, malloc_in_buffer = True, malloc_out_buffer = True,
                        open_fifo = 7, aac_failure = None\<rparr>"

section \<open>RTP packets of the A2DP source workers\<close>

text \<open>
  Modelled from the spec: \<open>rtp_header_t\<close> and \<open>rtp_payload_sbc_t\<close> are declared in
  a2dp-rtp.h, which is not among the sources. The spec gives the header its version,
  marker, payload type, 16-bit sequence number and 32-bit timestamp, and gives the SBC
  payload header a \<open>frame_count\<close> in its low 4 bits. A packet is the header as the worker
  filled it in (sequence number and timestamp before \<open>htons\<close> and \<open>htonl\<close>), the SBC
  payload header when there is one, and the payload bytes handed to \<open>write\<close>.
\<close>

record rtp_packet =
  rtp_version :: nat
  rtp_paytype :: nat
  rtp_markbit :: bool
  rtp_seq_number :: u16
  rtp_timestamp :: u32
  rtp_frame_count :: "nat option"
  rtp_payload :: "u8 list"

text \<open>What \<open>write(t->bt_fd, ...)\<close> returns: the byte count, or \<open>-1\<close> with an \<open>errno\<close>.\<close>

datatype write_res = Written nat | Write_error errno

text \<open>
  How the fragmentation loop of \<open>io_thread_a2dp_source_aac\<close> ends: the whole payload is
  written, a write fails (\<open>break\<close>), the socket is disconnected (\<open>goto fail\<close>), or the
  answers of the socket given to the model are used up.
\<close>

datatype send_status = Sent | Write_failed | Disconnected | No_answer

text \<open>
  The \<open>for (;;)\<close> loop that sends one audioMuxElement. \<open>payload_len_max\<close> is
  \<open>t->mtu_write - rtp_header_len\<close>; \<open>hdr\<close> is the header with its timestamp set; each
  element of the list tells, from the length asked for, what the next \<open>write\<close> returns.
  The result is the packets handed to \<open>write\<close> with what it answered, how the loop ended,
  the sequence number and the payload buffer. Reading beyond the buffer is a fault.
\<close>

fun aac_fragments ::
  "nat \<Rightarrow> nat \<Rightarrow> rtp_packet \<Rightarrow> (nat \<Rightarrow> write_res) list \<Rightarrow> u16 \<Rightarrow> u8 list \<Rightarrow> nat
     \<Rightarrow> fault + ((rtp_packet \<times> write_res) list \<times> send_status \<times> u16 \<times> u8 list)" where
  "aac_fragments payload_len_max rtp_header_len hdr [] seq_number out_payload payload_len =
     Inr ([], No_answer, seq_number, out_payload)"
| "aac_fragments payload_len_max rtp_header_len hdr (w # ws) seq_number out_payload payload_len =
     (let len = (if payload_len > payload_len_max then payload_len_max else payload_len);
          pkt = hdr\<lparr>rtp_markbit := len < payload_len_max,
                    rtp_seq_number := seq_number + 1,
                    rtp_payload := take len out_payload\<rparr>;
          ret = w (rtp_header_len + len)
      in if len > length out_payload then Inl BufferOverrun
         else
           (case ret of
              Write_error e \<Rightarrow>
                if e = ECONNRESET \<or> e = ENOTCONN
                then Inr ([(pkt, ret)], Disconnected, seq_number + 1, out_payload)
                else Inr ([(pkt, ret)], Write_failed, seq_number + 1, out_payload)
            | Written n \<Rightarrow>
                (let payload_len' = size_sub payload_len (size_sub n rtp_header_len)
                 in if payload_len' = 0 then Inr ([(pkt, ret)], Sent, seq_number + 1, out_payload)
                    else if n + payload_len' > length out_payload then Inl BufferOverrun
                    else
                      (case aac_fragments payload_len_max rtp_header_len hdr ws (seq_number + 1)
                              (write_at out_payload 0 (take payload_len' (drop n out_payload)))
                              payload_len' of
                         Inl f \<Rightarrow> Inl f
                       | Inr (ps, st, sq, buf) \<Rightarrow> Inr ((pkt, ret) # ps, st, sq, buf)))))"

text \<open>The constant part of the header, as both source workers initialise it.\<close>

definition rtp_header_init :: rtp_packet where
  "rtp_header_init =
     \<lparr>rtp_version = 2, rtp_paytype = 96, rtp_markbit = False, rtp_seq_number = 0,
      rtp_timestamp = 0, rtp_frame_count = None, rtp_payload = []\<rparr>"

definition all_written :: "nat \<Rightarrow> write_res" where
  \<comment> \<open>a socket that takes every packet whole\<close>
  "all_written n = Written n"


section \<open>The A2DP source workers: encoding and transfer\<close>












text \<open>
  The \<open>for (;;)\<close> loops of the two source workers. A turn of the loop finds \<open>poll\<close>
  failing, an event (which clears \<open>io_sync.frames\<close>), or PCM to read; the read gives the
  samples asked for, or end of file, or an error. With the read come the clock for
  \<open>ts0\<close> and the answers for the transfer that follows. The samples themselves, and
  the volume scaling applied to them, do not appear: the encoder is given by its answers.
\<close>

datatype pcm_read = Pcm_read | Pcm_eof | Pcm_error






definition sbc_source_mtu :: "nat \<Rightarrow> nat \<Rightarrow> nat \<Rightarrow> nat" where
  \<comment> \<open>the writing MTU, raised to hold the headers and one SBC frame\<close>
  "sbc_source_mtu mtu hl sbc_frame_len =
     (if mtu < hl + sbc_frame_len then hl + sbc_frame_len else mtu)"







section \<open>Properties of the rate pacer\<close>

lemma unat_smp: "unat (ucast (x::u16) :: u32) = unat x"
proof -
  have "uint (ucast x :: u32) = uint x"
    by (rule uint_up_ucast) (simp add: is_up)
  then show ?thesis unfolding unat_eq_nat_uint by simp
qed

lemma dur_word: 
  "(1000000 * (f div ucast x) + (1000000 div ucast x) * (f mod ucast x) :: u32)
    = word_of_nat (spec_duration (unat f) (unat (x::u16)))"
proof -
  have "unat (1000000 :: u32) = 1000000" by simp
  then have a: "unat ((1000000::u32) div ucast x) = 1000000 div unat x"
    by (simp add: unat_div unat_smp)
  have b: "unat (f div ucast x) = unat f div unat x" by (simp add: unat_div unat_smp)
  have c: "unat (f mod ucast x) = unat f mod unat x" by (simp add: unat_mod unat_smp)
  show ?thesis
    unfolding spec_duration_def
    by (simp add: a[symmetric] b[symmetric] c[symmetric])
qed

lemma sint_small: "n < 2 ^ 31 \<Longrightarrow> sint (word_of_nat n :: u32) = int n"
  by (simp add: signed_of_nat signed_take_bit_int_eq_self)

lemma audio_sec: "uint ((fr :: u32) div ucast (x::u16)) = int (unat fr div unat x)"
  by (simp add: uint_nat unat_div unat_smp) 

lemma audio_nsec:
  assumes "x \<noteq> (0::u16)"
  shows "uint ((1000000000 div ucast x) * ((fr::u32) mod ucast x)) = int ((1000000000 div unat x) * (unat fr mod unat x))"
proof -
  have x0: "0 < unat x" using assms by (simp add: unat_gt_0)
  have "unat (1000000000 :: u32) = 1000000000" by simp
  then have a: "unat ((1000000000::u32) div ucast x) = 1000000000 div unat x"
    by (simp add: unat_div unat_smp)
  have c: "unat (fr mod ucast x) = unat fr mod unat x" by (simp add: unat_mod unat_smp)
  have "(1000000000 div unat x) * (unat fr mod unat x) \<le> (1000000000 div unat x) * unat x"
    using x0 by (intro mult_left_mono) (simp_all add: less_imp_le)
  also have "\<dots> \<le> 1000000000" by simp
  finally have bound: "(1000000000 div unat x) * (unat fr mod unat x) < 2 ^ 32" by simp
  have "unat ((1000000000 div ucast x) * ((fr::u32) mod ucast x))
      = (unat ((1000000000::u32) div ucast x) * unat (fr mod ucast x)) mod 2 ^ 32"
    by (simp add: unat_word_ariths)
  also have "\<dots> = (1000000000 div unat x) * (unat fr mod unat x)"
    using bound by (simp only: a c mod_less)
  finally show ?thesis by (simp only: uint_nat)
qed

lemma over: "unat (if (fr::u32) > ucast x div 100 then fr - ucast x div 100 else 0) = unat fr - unat (x::u16) div 100"
proof -
  have "unat (100::u32) = 100" by simp
  then have o: "unat ((ucast x :: u32) div 100) = unat x div 100"
    by (simp add: unat_div unat_smp)
  show ?thesis
    by (auto simp: word_less_nat_alt o unat_sub word_le_nat_alt not_less)
qed

lemma difftimespec_ns: "timespec_ns (snd (difftimespec a b)) = \<bar>timespec_ns b - timespec_ns a\<bar>"
  by (simp add: difftimespec_def Let_def timespec_ns_def)

lemma difftimespec_sgn: "fst (difftimespec a b) > 0 \<longleftrightarrow> timespec_ns a < timespec_ns b"
  by (simp add: difftimespec_def Let_def)

lemma ts_audio_ns:
  assumes "x \<noteq> (0::u16)"
  shows "timespec_ns \<lparr>tv_sec = uint ((if (fr::u32) > ucast x div 100 then fr - ucast x div 100 else 0) div ucast x),
        tv_nsec = uint ((1000000000 div ucast x) * ((if fr > ucast x div 100 then fr - ucast x div 100 else 0) mod ucast x))\<rparr>
     = target_ns (unat fr) (unat x)"
  unfolding timespec_ns_def target_ns_def
  by (simp only: timespec.simps audio_sec audio_nsec [OF assms] over)

text \<open>
  C10. Called with a frame count of 0, the rate pacer returns 0 at once: the pacing state
  (frame counter, reference time point, sampling rate) is returned as it was and
  \<open>nanosleep\<close> is not called.
\<close>

theorem time_sync_zero_frames:
  "io_thread_time_sync s 0 now = Inr (s, 0, None)"
  by (simp add: io_thread_time_sync_def)

text \<open>
  C6 (as amended). For a nonzero frame count and a nonzero sampling rate the pacer adds the
  frame count to \<open>io_sync.frames\<close> (modulo 2^32), calls \<open>nanosleep\<close> exactly when
  the target audio time (cumulative frames less sampling/100, never below zero) exceeds the
  time elapsed since \<open>ts0\<close>, sleeping for the difference, and returns the spec's
  duration formula reduced modulo 2^32 and read as a signed 32-bit \<open>int\<close>, which is the
  formula's value whenever that is below 2^31.
\<close>

theorem time_sync_paces:
  assumes "f \<noteq> 0" and "sampling s \<noteq> 0"
  shows "\<exists>d sl. io_thread_time_sync s f now = Inr (s\<lparr>frames := frames s + f\<rparr>, d, sl)
     \<and> d = sint (word_of_nat (spec_duration (unat f) (unat (sampling s))) :: u32)
     \<and> (spec_duration (unat f) (unat (sampling s)) < 2 ^ 31 \<longrightarrow>
          d = int (spec_duration (unat f) (unat (sampling s))))
     \<and> (sl \<noteq> None \<longleftrightarrow>
          elapsed_ns (ts0 s) now < target_ns (unat (frames s + f)) (unat (sampling s)))
     \<and> (\<forall>t. sl = Some t \<longrightarrow>
          timespec_ns t = target_ns (unat (frames s + f)) (unat (sampling s)) - elapsed_ns (ts0 s) now)"
proof -
  let ?x = "sampling s"
  let ?fr = "frames s + f"
  let ?fr' = "if ?fr > ucast ?x div 100 then ?fr - ucast ?x div 100 else 0"
  let ?aud = "\<lparr>tv_sec = uint (?fr' div ucast ?x),
        tv_nsec = uint ((1000000000 div ucast ?x) * (?fr' mod ucast ?x))\<rparr>"
  let ?clk = "snd (difftimespec (ts0 s) now)"
  let ?r = "difftimespec ?clk ?aud"
  let ?d = "sint (1000000 * (f div ucast ?x) + (1000000 div ucast ?x) * (f mod ucast ?x) :: u32)"
  let ?sl = "if fst ?r > 0 then Some (snd ?r) else None"
  have run: "io_thread_time_sync s f now = Inr (s\<lparr>frames := ?fr\<rparr>, ?d, ?sl)"
    using assms by (simp add: io_thread_time_sync_def Let_def split_beta)
  have aud: "timespec_ns ?aud = target_ns (unat ?fr) (unat ?x)"
    by (rule ts_audio_ns [OF assms(2)])
  have clk: "timespec_ns ?clk = elapsed_ns (ts0 s) now"
    by (simp only: difftimespec_ns elapsed_ns_def)
  have d: "?d = sint (word_of_nat (spec_duration (unat f) (unat ?x)) :: u32)"
    by (simp only: dur_word)
  have small: "spec_duration (unat f) (unat ?x) < 2 ^ 31 \<Longrightarrow> ?d = int (spec_duration (unat f) (unat ?x))"
    by (simp only: d sint_small)
  have sl1: "?sl \<noteq> None \<longleftrightarrow> elapsed_ns (ts0 s) now < target_ns (unat ?fr) (unat ?x)"
    by (simp only: difftimespec_sgn aud clk) simp
  have sl2: "\<forall>t. ?sl = Some t \<longrightarrow>
      timespec_ns t = target_ns (unat ?fr) (unat ?x) - elapsed_ns (ts0 s) now"
  proof (intro allI impI)
    fix t assume "?sl = Some t"
    then have pos: "fst ?r > 0" and t: "t = snd ?r" by (auto split: if_splits)
    from pos have "timespec_ns ?clk < timespec_ns ?aud" by (simp only: difftimespec_sgn)
    moreover have "timespec_ns t = \<bar>timespec_ns ?aud - timespec_ns ?clk\<bar>"
      by (simp only: t difftimespec_ns)
    ultimately show "timespec_ns t = target_ns (unat ?fr) (unat ?x) - elapsed_ns (ts0 s) now"
      by (simp only: aud clk)
  qed
  from run d small sl1 sl2 show ?thesis by blast
qed

theorem time_sync_paces_witness:
  "io_thread_time_sync \<lparr>ts0 = \<lparr>tv_sec = 5, tv_nsec = 0\<rparr>, frames = 44100, sampling = 44100\<rparr> 441
      \<lparr>tv_sec = 5, tv_nsec = 900000000\<rparr>
    = Inr (\<lparr>ts0 = \<lparr>tv_sec = 5, tv_nsec = 0\<rparr>, frames = 44541, sampling = 44100\<rparr>, 9702,
           Some \<lparr>tv_sec = 0, tv_nsec = 100000000\<rparr>)"
  using time_sync_paces [of 441 "\<lparr>ts0 = \<lparr>tv_sec = 5, tv_nsec = 0\<rparr>, frames = 44100, sampling = 44100\<rparr>"
      "\<lparr>tv_sec = 5, tv_nsec = 900000000\<rparr>"]
  by (simp add: io_thread_time_sync_def difftimespec_def timespec_ns_def Let_def)

text \<open>
  C6 as stated fails for a large frame count: 100000000 frames at 44100 Hz make the
  formula 2267556600, and the function returns the negative \<open>int\<close> -2027410696.
\<close>

theorem time_sync_duration_counterexample:
  "io_thread_time_sync \<lparr>ts0 = \<lparr>tv_sec = 0, tv_nsec = 0\<rparr>, frames = 0, sampling = 44100\<rparr> 100000000
      \<lparr>tv_sec = 1, tv_nsec = 0\<rparr>
    = Inr (\<lparr>ts0 = \<lparr>tv_sec = 0, tv_nsec = 0\<rparr>, frames = 100000000, sampling = 44100\<rparr>,
           - 2027410696, Some \<lparr>tv_sec = 2266, tv_nsec = 563677825\<rparr>)
   \<and> int (spec_duration 100000000 44100) = 2267556600"
  by (simp add: io_thread_time_sync_def difftimespec_def timespec_ns_def Let_def spec_duration_def)

section \<open>Properties of the AT parser\<close>

lemma tolower_eq_iff:
  assumes "97 \<le> k" "k \<le> 122"
  shows "tolower c = char_of (k::nat) \<longleftrightarrow> c = char_of (k - 32) \<or> c = char_of k"
proof -
  define n where "n = (of_char c :: nat)"
  have c: "c = char_of n" and n: "n < 256" by (simp_all add: n_def)
  have eq: "\<And>a b::nat. a < 256 \<Longrightarrow> b < 256 \<Longrightarrow> char_of a = char_of b \<longleftrightarrow> a = b"
    by (simp add: char_of_eq_iff take_bit_nat_eq_self)
  show ?thesis
  proof (cases "65 \<le> n \<and> n \<le> 90")
    case True
    then have "tolower c = char_of (n + 32)" by (simp add: tolower_def n_def)
    moreover have "char_of (n + 32) = char_of k \<longleftrightarrow> n + 32 = k" using True assms by (intro eq) auto
    moreover have "c = char_of (k - 32) \<longleftrightarrow> n = k - 32" unfolding c using n assms by (intro eq) auto
    moreover have "c = char_of k \<longleftrightarrow> n = k" unfolding c using n assms by (intro eq) auto
    ultimately show ?thesis using True assms by auto
  next
    case False
    then have "tolower c = c" unfolding tolower_def n_def by auto
    moreover have "c = char_of (k - 32) \<longleftrightarrow> n = k - 32" unfolding c using n assms by (intro eq) auto
    ultimately show ?thesis using False assms by auto
  qed
qed

lemma char_of_letters:
  "char_of (97::nat) = CHR ''a''" "char_of (65::nat) = CHR ''A''"
  "char_of (116::nat) = CHR ''t''" "char_of (84::nat) = CHR ''T''"
  by code_simp+

lemma tolower_a: "tolower c = CHR ''a'' \<longleftrightarrow> c = CHR ''A'' \<or> c = CHR ''a''"
  using tolower_eq_iff [of 97 c] by (simp add: char_of_letters)

lemma tolower_t: "tolower c = CHR ''t'' \<longleftrightarrow> c = CHR ''T'' \<or> c = CHR ''t''"
  using tolower_eq_iff [of 116 c] by (simp add: char_of_letters)

lemma strncasecmp_AT:
  "strncasecmp s ''AT'' 2 \<longleftrightarrow> (\<exists>a t r. s = a # t # r \<and> a \<in> {CHR ''A'', CHR ''a''} \<and> t \<in> {CHR ''T'', CHR ''t''})"
proof (cases s)
  case Nil
  then show ?thesis by (simp add: strncasecmp_def)
next
  case (Cons a s1)
  show ?thesis
  proof (cases s1)
    case Nil
    with Cons show ?thesis by (simp add: strncasecmp_def)
  next
    case (Cons t r)
    have up: "tolower (CHR ''A'') = CHR ''a''" "tolower (CHR ''T'') = CHR ''t''"
      by (simp_all add: tolower_def char_of_letters)
    from \<open>s = a # s1\<close> Cons show ?thesis
      by (simp add: strncasecmp_def up tolower_a tolower_t)
  qed
qed

lemma at_trim_core:
  assumes "\<forall>c\<in>set ws1. isspace c" and "\<forall>c\<in>set ws2. isspace c"
    and "core \<noteq> []" and "\<not> isspace (hd core)" and "\<not> isspace (last core)"
  shows "at_trim (ws1 @ core @ ws2) = core"
proof -
  have 1: "dropWhile isspace (ws1 @ core @ ws2) = core @ ws2"
    using assms(1,3,4) by (cases core) (simp_all add: dropWhile_append3)
  have "rev core \<noteq> []" and "\<not> isspace (hd (rev core))"
    using assms(3,5) by (simp_all add: hd_rev)
  then have 2: "dropWhile isspace (rev ws2 @ rev core) = rev core"
    using assms(2) by (cases "rev core") (simp_all add: dropWhile_append3)
  show ?thesis by (simp add: at_trim_def 1 2)
qed

lemma set_at_trim: "set (at_trim s) \<subseteq> set s"
proof -
  have "set (at_trim s) \<subseteq> set (dropWhile isspace s)"
    unfolding at_trim_def using set_dropWhileD by fastforce
  also have "\<dots> \<subseteq> set s" using set_dropWhileD by fastforce
  finally show ?thesis .
qed

lemma c_str_pad: 
  assumes "NUL \<notin> set s" shows "c_str (s @ replicate a NUL @ replicate b NUL) = s"
proof -
  have "\<forall>x\<in>set s. x \<noteq> NUL" using assms by auto
  then show ?thesis by (simp add: c_str_def flip: replicate_add)
qed

lemma c_str_zero: "c_str (replicate n NUL) = []"
  by (simp add: c_str_def)

lemma strchr_idx_first:
  assumes "c \<notin> set pre" shows "strchr_idx (pre @ c # post) c = Some (length pre)"
proof -
  have "\<forall>x\<in>set pre. x \<noteq> c" using assms by auto
  then show ?thesis by (simp add: strchr_idx_def)
qed

lemma strchr_idx_none: "c \<notin> set s \<Longrightarrow> strchr_idx s c = None"
  by (simp add: strchr_idx_def)

lemma strncpy_command:
  assumes "length CMD \<le> 15" and "NUL \<notin> set CMD"
  shows "c_str (strncpy (replicate 16 NUL) (CMD @ rest) (length CMD)) = CMD"
proof -
  have e: "strncpy (replicate 16 NUL) (CMD @ rest) (length CMD)
      = CMD @ replicate 0 NUL @ replicate (16 - length CMD) NUL"
    by (simp add: strncpy_def)
  show ?thesis unfolding e by (rule c_str_pad [OF assms(2)])
qed

lemma strncpy_value:
  assumes "NUL \<notin> set v"
  shows "c_str (strncpy (replicate 64 NUL) v 63) = take 63 v"
proof -
  have e: "strncpy (replicate 64 NUL) v 63
      = take 63 v @ replicate (63 - length v) NUL @ replicate 1 NUL"
    by (simp add: strncpy_def)
  have "NUL \<notin> set (take 63 v)" using assms by (auto dest: in_set_takeD)
  then show ?thesis unfolding e by (rule c_str_pad)
qed

lemma at_prefix_chars:
  assumes "a \<in> {CHR ''A'', CHR ''a''}" and "t \<in> {CHR ''T'', CHR ''t''}"
  shows "strncasecmp (a # t # r) ''AT'' 2"
    and "a \<noteq> CHR ''=''" and "t \<noteq> CHR ''=''" and "a \<noteq> CHR ''?''" and "t \<noteq> CHR ''?''"
    and "\<not> isspace a"
  using assms by (auto simp: strncasecmp_AT isspace_def)

lemma at_parse_set:
  assumes a: "a \<in> {CHR ''A'', CHR ''a''}" and t: "t \<in> {CHR ''T'', CHR ''t''}"
    and len: "length CMD \<le> 15" and nul: "NUL \<notin> set CMD" "NUL \<notin> set v"
    and eq: "CHR ''='' \<notin> set CMD" and v: "take 1 v \<noteq> ''?''"
    and trim: "at_trim str = a # t # CMD @ CHR ''='' # v"
  shows "\<exists>c. at_parse str cmd0 = Inr (0, c) \<and> cmd_type c = AT_CMD_TYPE_SET
           \<and> c_str (cmd_command c) = CMD \<and> c_str (cmd_value c) = take 63 v"
proof -
  note p = at_prefix_chars [OF a t]
  have "CHR ''='' \<notin> set (a # t # CMD)" using p(2,3) eq by auto
  from strchr_idx_first [OF this, of v]
  have idx: "strchr_idx (a # t # CMD @ CHR ''='' # v) (CHR ''='') = Some (length CMD + 2)"
    by simp
  show ?thesis
    using p(1) v len
    by (simp add: at_parse_def trim idx Let_def AT_MAX_CMD_SIZE_def AT_MAX_VALUE_SIZE_def
          strncpy_command [OF len nul(1)] strncpy_value [OF nul(2)])
qed

lemma at_parse_test:
  assumes a: "a \<in> {CHR ''A'', CHR ''a''}" and t: "t \<in> {CHR ''T'', CHR ''t''}"
    and len: "length CMD \<le> 15" and nul: "NUL \<notin> set CMD"
    and eq: "CHR ''='' \<notin> set CMD"
    and trim: "at_trim str = a # t # CMD @ ''=?''"
  shows "\<exists>c. at_parse str cmd0 = Inr (0, c) \<and> cmd_type c = AT_CMD_TYPE_TEST
           \<and> c_str (cmd_command c) = CMD \<and> c_str (cmd_value c) = []"
proof -
  note p = at_prefix_chars [OF a t]
  have "CHR ''='' \<notin> set (a # t # CMD)" using p(2,3) eq by auto
  from strchr_idx_first [OF this, of "''?''"]
  have idx: "strchr_idx (a # t # CMD @ ''=?'') (CHR ''='') = Some (length CMD + 2)"
    by simp
  show ?thesis
    using p(1) len
    by (simp add: at_parse_def trim idx Let_def AT_MAX_CMD_SIZE_def AT_MAX_VALUE_SIZE_def
          strncpy_command [OF len nul] c_str_zero)
qed

lemma at_parse_get:
  assumes a: "a \<in> {CHR ''A'', CHR ''a''}" and t: "t \<in> {CHR ''T'', CHR ''t''}"
    and len: "length CMD \<le> 15" and nul: "NUL \<notin> set CMD"
    and eq: "CHR ''='' \<notin> set CMD" and q: "CHR ''?'' \<notin> set CMD"
    and trim: "at_trim str = a # t # CMD @ ''?''"
  shows "\<exists>c. at_parse str cmd0 = Inr (0, c) \<and> cmd_type c = AT_CMD_TYPE_GET
           \<and> c_str (cmd_command c) = CMD \<and> c_str (cmd_value c) = []"
proof -
  note p = at_prefix_chars [OF a t]
  have "CHR ''='' \<notin> set (a # t # CMD @ ''?'')" using p(2,3) eq by auto
  then have none: "strchr_idx (a # t # CMD @ ''?'') (CHR ''='') = None"
    by (rule strchr_idx_none)
  have "CHR ''?'' \<notin> set (a # t # CMD)" using p(4,5) q by auto
  from strchr_idx_first [OF this, of "[]"]
  have idx: "strchr_idx (a # t # CMD @ ''?'') (CHR ''?'') = Some (length CMD + 2)"
    by simp
  show ?thesis
    using p(1) len
    by (simp add: at_parse_def trim none idx Let_def AT_MAX_CMD_SIZE_def AT_MAX_VALUE_SIZE_def
          strncpy_command [OF len nul] c_str_zero)
qed

lemma at_parse_no_prefix:
  assumes "\<not> strncasecmp (at_trim str) ''AT'' 2"
  shows "at_parse str cmd0 = Inr (- 1, cmd0\<lparr>cmd_command := replicate 16 NUL,
            cmd_value := replicate 64 NUL\<rparr>)"
  using assms by (simp add: at_parse_def Let_def AT_MAX_CMD_SIZE_def AT_MAX_VALUE_SIZE_def)

lemma at_parse_neither:
  assumes "CHR ''='' \<notin> set str" and "CHR ''?'' \<notin> set str"
  shows "\<exists>c. at_parse str cmd0 = Inr (- 1, c) \<and> cmd_command c = replicate 16 NUL
           \<and> cmd_value c = replicate 64 NUL"
proof -
  have "CHR ''='' \<notin> set (at_trim str)" "CHR ''?'' \<notin> set (at_trim str)"
    using assms set_at_trim by blast+
  then have "strchr_idx (at_trim str) (CHR ''='') = None" "strchr_idx (at_trim str) (CHR ''?'') = None"
    by (simp_all add: strchr_idx_none)
  then show ?thesis
    by (simp add: at_parse_def Let_def AT_MAX_CMD_SIZE_def AT_MAX_VALUE_SIZE_def)
qed

text \<open>
  C4 (as amended). For an input of the form \<open>AT<CMD>=<v>\<close>, \<open>AT<CMD>=?\<close> or
  \<open>AT<CMD>?\<close>, surrounded by white space, with the \<open>AT\<close> in either case and a command name
  of at most 15 bytes without \<open>=\<close>, \<open>at_parse\<close> returns 0 with the command name and the
  type SET (value: the first 63 bytes of \<open>v\<close>, which does not begin with \<open>?\<close> nor end in
  white space), TEST or GET (value empty; for GET the name has no \<open>?\<close>). An input without
  the \<open>AT\<close> prefix, and an input with neither \<open>=\<close> nor \<open>?\<close>, returns -1 with both
  arrays of the output struct cleared.
\<close>

theorem at_parse_forms:
  assumes ws: "\<forall>c\<in>set ws1. isspace c" "\<forall>c\<in>set ws2. isspace c"
    and at: "a \<in> {CHR ''A'', CHR ''a''}" "t \<in> {CHR ''T'', CHR ''t''}"
    and cmd: "length CMD \<le> 15" "NUL \<notin> set CMD" "CHR ''='' \<notin> set CMD"
  shows "(NUL \<notin> set v \<and> take 1 v \<noteq> ''?'' \<and> (v = [] \<or> \<not> isspace (last v)) \<longrightarrow>
            (\<exists>c. at_parse (ws1 @ (a # t # CMD @ ''='' @ v) @ ws2) cmd0 = Inr (0, c)
                \<and> cmd_type c = AT_CMD_TYPE_SET \<and> c_str (cmd_command c) = CMD
                \<and> c_str (cmd_value c) = take 63 v))
       \<and> (\<exists>c. at_parse (ws1 @ (a # t # CMD @ ''=?'') @ ws2) cmd0 = Inr (0, c)
                \<and> cmd_type c = AT_CMD_TYPE_TEST \<and> c_str (cmd_command c) = CMD
                \<and> c_str (cmd_value c) = [])
       \<and> (CHR ''?'' \<notin> set CMD \<longrightarrow>
            (\<exists>c. at_parse (ws1 @ (a # t # CMD @ ''?'') @ ws2) cmd0 = Inr (0, c)
                \<and> cmd_type c = AT_CMD_TYPE_GET \<and> c_str (cmd_command c) = CMD
                \<and> c_str (cmd_value c) = []))
       \<and> ((\<nexists>a' t' r. at_trim str = a' # t' # r \<and> a' \<in> {CHR ''A'', CHR ''a''}
                  \<and> t' \<in> {CHR ''T'', CHR ''t''}) \<longrightarrow>
            at_parse str cmd0 = Inr (- 1, cmd0\<lparr>cmd_command := replicate 16 NUL,
                                                cmd_value := replicate 64 NUL\<rparr>))
       \<and> (CHR ''='' \<notin> set str \<and> CHR ''?'' \<notin> set str \<longrightarrow>
            (\<exists>c. at_parse str cmd0 = Inr (- 1, c) \<and> cmd_command c = replicate 16 NUL
                \<and> cmd_value c = replicate 64 NUL))"
proof (intro conjI impI)
  note sp = at_prefix_chars(6) [OF at]
  {
    assume v: "NUL \<notin> set v \<and> take 1 v \<noteq> ''?'' \<and> (v = [] \<or> \<not> isspace (last v))"
    then have "\<not> isspace (last (a # t # CMD @ ''='' @ v))"
      by (auto simp: isspace_def)
    with ws sp have "at_trim (ws1 @ (a # t # CMD @ ''='' @ v) @ ws2) = a # t # CMD @ CHR ''='' # v"
      by (subst at_trim_core) simp_all
    from at_parse_set [OF at cmd(1,2) _ cmd(3) _ this] v
    show "\<exists>c. at_parse (ws1 @ (a # t # CMD @ ''='' @ v) @ ws2) cmd0 = Inr (0, c)
                \<and> cmd_type c = AT_CMD_TYPE_SET \<and> c_str (cmd_command c) = CMD
                \<and> c_str (cmd_value c) = take 63 v"
      by blast
  }
  {
    have "\<not> isspace (last (a # t # CMD @ ''=?''))" by (simp add: isspace_def)
    with ws sp have "at_trim (ws1 @ (a # t # CMD @ ''=?'') @ ws2) = a # t # CMD @ ''=?''"
      by (subst at_trim_core) simp_all
    from at_parse_test [OF at cmd this]
    show "\<exists>c. at_parse (ws1 @ (a # t # CMD @ ''=?'') @ ws2) cmd0 = Inr (0, c)
                \<and> cmd_type c = AT_CMD_TYPE_TEST \<and> c_str (cmd_command c) = CMD
                \<and> c_str (cmd_value c) = []" .
  }
  {
    assume q: "CHR ''?'' \<notin> set CMD"
    have "\<not> isspace (last (a # t # CMD @ ''?''))" by (simp add: isspace_def)
    with ws sp have "at_trim (ws1 @ (a # t # CMD @ ''?'') @ ws2) = a # t # CMD @ ''?''"
      by (subst at_trim_core) simp_all
    from at_parse_get [OF at cmd q this]
    show "\<exists>c. at_parse (ws1 @ (a # t # CMD @ ''?'') @ ws2) cmd0 = Inr (0, c)
                \<and> cmd_type c = AT_CMD_TYPE_GET \<and> c_str (cmd_command c) = CMD
                \<and> c_str (cmd_value c) = []" .
  }
  {
    assume "\<nexists>a' t' r. at_trim str = a' # t' # r \<and> a' \<in> {CHR ''A'', CHR ''a''}
                  \<and> t' \<in> {CHR ''T'', CHR ''t''}"
    then have "\<not> strncasecmp (at_trim str) ''AT'' 2" using strncasecmp_AT by blast
    then show "at_parse str cmd0 = Inr (- 1, cmd0\<lparr>cmd_command := replicate 16 NUL,
                                                cmd_value := replicate 64 NUL\<rparr>)"
      by (rule at_parse_no_prefix)
  }
  {
    assume "CHR ''='' \<notin> set str \<and> CHR ''?'' \<notin> set str"
    then show "\<exists>c. at_parse str cmd0 = Inr (- 1, c) \<and> cmd_command c = replicate 16 NUL
                \<and> cmd_value c = replicate 64 NUL"
      using at_parse_neither by blast
  }
qed

theorem at_parse_forms_witness:
  "(\<exists>c. at_parse ('' aT+VGM=12'' @ [CHR 0x0D]) cmd_prev = Inr (0, c)
        \<and> cmd_type c = AT_CMD_TYPE_SET \<and> c_str (cmd_command c) = ''+VGM''
        \<and> c_str (cmd_value c) = ''12'')
   \<and> (\<exists>c. at_parse ('' aT+VGM=?'' @ [CHR 0x0D]) cmd_prev = Inr (0, c)
        \<and> cmd_type c = AT_CMD_TYPE_TEST \<and> c_str (cmd_command c) = ''+VGM''
        \<and> c_str (cmd_value c) = [])
   \<and> (\<exists>c. at_parse ('' aT+VGM?'' @ [CHR 0x0D]) cmd_prev = Inr (0, c)
        \<and> cmd_type c = AT_CMD_TYPE_GET \<and> c_str (cmd_command c) = ''+VGM''
        \<and> c_str (cmd_value c) = [])
   \<and> at_parse ''RING'' cmd_prev = Inr (- 1, cmd_prev\<lparr>cmd_command := replicate 16 NUL,
                                                cmd_value := replicate 64 NUL\<rparr>)
   \<and> (\<exists>c. at_parse ''RING'' cmd_prev = Inr (- 1, c) \<and> cmd_command c = replicate 16 NUL
                \<and> cmd_value c = replicate 64 NUL)"
  using at_parse_forms [where ?ws1.0 = "'' ''" and ?ws2.0 = "[CHR 0x0D]" and a = "CHR ''a''"
      and t = "CHR ''T''" and CMD = "''+VGM''" and v = "''12''" and str = "''RING''"
      and ?cmd0.0 = cmd_prev]
  by (simp add: isspace_def at_trim_def)

text \<open>
  C4 as stated fails twice: a rejected input clears the arrays of the output struct (and
  \<open>ATD\<close> also sets the type), and the bare form \<open>AT<CMD>\<close> is rejected.
\<close>

theorem at_parse_counterexample:
  "at_parse ''RING'' cmd_prev
     = Inr (- 1, \<lparr>cmd_type = AT_CMD_TYPE_SET, cmd_command = replicate 16 NUL,
                   cmd_value = replicate 64 NUL\<rparr>)
   \<and> at_parse ''ATD'' cmd_prev
     = Inr (- 1, \<lparr>cmd_type = AT_CMD_TYPE_GET, cmd_command = replicate 16 NUL,
                   cmd_value = replicate 64 NUL\<rparr>)
   \<and> c_str (cmd_command cmd_prev) = ''+VGS'' \<and> c_str (replicate 16 NUL) = []"
  by (simp add: at_parse_def at_trim_def isspace_def strncasecmp_AT strchr_idx_def
        AT_MAX_CMD_SIZE_def AT_MAX_VALUE_SIZE_def Let_def cmd_prev_def c_str_def)

section \<open>Properties of the RFCOMM worker\<close>

lemma strtoul_768: "strtoul ''768'' = 768"
  by (simp add: strtoul_def parse_sign_def parse_digits_def isdigit_def digit_val_def isspace_def)

lemma strtoul_896: "strtoul ''896'' = 896"
  by (simp add: strtoul_def parse_sign_def parse_digits_def isdigit_def digit_val_def isspace_def)

lemma dec_values: "dec 64 = ''64''" "dec 576 = ''576''" "dec 3 = ''3''" "dec 9 = ''9''"
  by (simp_all add: dec.simps digit_char_def)

lemmas at_parse_eval = at_parse_def at_trim_def isspace_def strncasecmp_AT strchr_idx_def
  strncpy_def AT_MAX_CMD_SIZE_def AT_MAX_VALUE_SIZE_def Let_def c_str_def

lemmas rfcomm_eval = rfcomm_turn_def rfcomm_dispatch_def rfcomm_event_def
  io_thread_write_at_response_def CRLF_def HFP_AG_FEAT_CODEC_def HFP_HF_FEAT_CODEC_def
  HFP_AG_FEAT_ECS_def HFP_AG_FEATURES_def SCO_CODEC_CVSD_def SCO_CODEC_MSBC_def

text \<open>
  C2. On an event the worker reports a changed microphone gain as \<open>+VGM=<n>\<close>. For a
  changed speaker gain it writes \<open>+VGS=\<close> followed by the microphone gain: with the
  speaker gain gone from 5 to 9 and the microphone gain at 3, the message is \<open>+VGS=3\<close>.
\<close>

theorem rfcomm_event_speaker_gain:
  "rfcomm_turn msbc sscanf_xapl at0 worker_example PollEvent
     = Inr (worker_example\<lparr>w_spk_gain := 9\<rparr>, [CRLF @ ''+VGS=3'' @ CRLF], True)"
  by (simp add: rfcomm_eval worker_example_def dec_values)

text \<open>
  C5 (as amended). 768 has bits 8 and 9 set and bit 7 clear: on \<open>AT+BRSF=768\<close> a worker
  built with mSBC writes \<open>+BRSF: 64\<close> and then \<open>OK\<close>, selects CVSD and stores 768 as
  the HF features. On \<open>AT+BRSF=896\<close>, where bit 7 is set, it writes \<open>+BRSF: 576\<close> and
  then \<open>OK\<close>, leaves the codec as it was and stores 896.
\<close>

theorem rfcomm_brsf:
  "rfcomm_turn True sscanf_xapl at0 w (ReadData (''AT+BRSF=768'' @ [CHR 0x0D]))
     = Inr (w\<lparr>w_sco := (w_sco w)\<lparr>codec := SCO_CODEC_CVSD, hf_features := 768\<rparr>\<rparr>,
            [CRLF @ ''+BRSF: 64'' @ CRLF, CRLF @ ''OK'' @ CRLF], True)
   \<and> rfcomm_turn True sscanf_xapl at0 w (ReadData (''AT+BRSF=896'' @ [CHR 0x0D]))
     = Inr (w\<lparr>w_sco := (w_sco w)\<lparr>hf_features := 896\<rparr>\<rparr>,
            [CRLF @ ''+BRSF: 576'' @ CRLF, CRLF @ ''OK'' @ CRLF], True)"
  by (simp add: rfcomm_eval at_parse_eval strtoul_768 strtoul_896 dec_values)

text \<open>
  C5 as stated fails: the reply to \<open>AT+BRSF=768\<close> is \<open>+BRSF: 64\<close>, and \<open>OK\<close> follows it.
\<close>

theorem rfcomm_brsf_768_counterexample:
  "rfcomm_turn True (\<lambda>v. None) cmd_prev worker_example (ReadData (''AT+BRSF=768'' @ [CHR 0x0D]))
     = Inr (worker_example\<lparr>w_sco := \<lparr>mic_gain = 3, spk_gain = 9, codec = 1, hf_features = 768\<rparr>\<rparr>,
            [CRLF @ ''+BRSF: 64'' @ CRLF, CRLF @ ''OK'' @ CRLF], True)"
  by (simp add: rfcomm_eval at_parse_eval strtoul_768 dec_values worker_example_def cmd_prev_def)

section \<open>Properties of the mSBC encoder loop\<close>

lemma size_sub_le:
  assumes "b \<le> a" and "a < 18446744073709551616"
  shows "size_sub a b = a - b"
proof -
  have b: "b mod 18446744073709551616 = b" using assms by simp
  have e: "a + 18446744073709551616 - b = (a - b) + 18446744073709551616" using assms by simp
  have "(a + 18446744073709551616 - b) mod 18446744073709551616
      = (a - b) mod 18446744073709551616"
    unfolding e by (rule mod_add_self2)
  also have "\<dots> = a - b" using assms by (intro mod_less) simp
  finally show ?thesis unfolding size_sub_def b .
qed

lemma nth_write_at_before:
  "i < off \<Longrightarrow> off \<le> length buf \<Longrightarrow> write_at buf off bs ! i = buf ! i"
  by (simp add: write_at_def nth_append)

lemma nth_write_at_in:
  "i < length bs \<Longrightarrow> off \<le> length buf \<Longrightarrow> write_at buf off bs ! (off + i) = bs ! i"
  by (simp add: write_at_def nth_append)

lemma nth_write_at_after:
  "off + length bs \<le> i \<Longrightarrow> i < length buf \<Longrightarrow> write_at buf off bs ! i = buf ! i"
  by (auto simp: write_at_def nth_append)

lemma take_write_at:
  "n \<le> off \<Longrightarrow> off \<le> length buf \<Longrightarrow> take n (write_at buf off bs) = take n buf"
  by (simp add: write_at_def)

lemma encode_loop_frames:
  assumes "encode_loop E sil s c = Inr (s', c', fin)"
    and "enc_frame_number s < 4"
    and "sync \<longrightarrow> sil \<or> (\<forall>e pcm room. 0 \<le> fst (snd (E e pcm room)) \<longrightarrow>
                 take 1 (snd (snd (E e pcm room))) = [MSBC_SYNC])"
  shows "\<exists>k. enc_buffer_cnt s' = enc_buffer_cnt s + 60 * k
          \<and> length (enc_buffer s') = length (enc_buffer s)
          \<and> enc_frame_number s' = (enc_frame_number s + k) mod 4
          \<and> take (enc_buffer_cnt s) (enc_buffer s') = take (enc_buffer_cnt s) (enc_buffer s)
          \<and> (\<forall>j\<ge>enc_buffer_cnt s'. j < length (enc_buffer s) \<longrightarrow> enc_buffer s' ! j = enc_buffer s ! j)
          \<and> (\<forall>i<k. frame_ok sync (enc_buffer s) (enc_buffer s') (enc_buffer_cnt s + 60 * i)
                       (enc_frame_number s + i))"
  using assms
proof (induction E sil s c arbitrary: s' c' fin rule: encode_loop.induct)
  case (1 E sil s c)
  let ?guard = "size_sub (enc_pcm_buffer_cnt s) c \<ge> size_of_ssize (enc_pcm_size s)
         \<and> size_sub (enc_buffer_size s) (enc_buffer_cnt s) \<ge> SCO_H2_FRAME_LEN"
  let ?bad = "enc_buffer_cnt s + SCO_H2_FRAME_LEN > length (enc_buffer s)
           \<or> enc_frame_number s \<ge> length h2_header_frame_number"
  let ?r = "E (enc s) (take (size_sub (enc_pcm_buffer_cnt s) c) (drop c (enc_pcm_buffer s)))
                    MSBC_FRAME_LEN"
  let ?len = "fst (snd ?r)"
  let ?written = "take MSBC_FRAME_LEN (snd (snd ?r))"
  let ?payload = "if sil then msbc_zero else ?written"
  let ?bytes = "[SCO_H2_HDR_0, h2_header_frame_number ! enc_frame_number s] @ ?payload"
  let ?buf1 = "write_at (enc_buffer s) (enc_buffer_cnt s) ?bytes"
  let ?s1 = "s\<lparr>enc := fst ?r, enc_buffer := ?buf1,
                 enc_frame_number := (enc_frame_number s + 1) mod 4,
                 enc_buffer_cnt := enc_buffer_cnt s + sizeof_msbc_frame\<rparr>"
  let ?c1 = "(c + nat ?len) mod 18446744073709551616"
  note run = "1.prems"(1)
  show ?case
  proof (cases "?guard \<and> \<not> ?bad \<and> \<not> ?len < 0")
    case False
    then have "enc_buffer s' = enc_buffer s \<and> enc_buffer_cnt s' = enc_buffer_cnt s
        \<and> enc_frame_number s' = enc_frame_number s"
      using run by (subst (asm) encode_loop.simps) (auto simp: Let_def split: if_splits)
    then show ?thesis using "1.prems"(2)
      by (intro exI [of _ 0]) simp
  next
    case True
    then have g: ?guard and nb: "\<not> ?bad" and ln: "\<not> ?len < 0" by blast+
    have run1: "encode_loop E sil ?s1 ?c1 = Inr (s', c', fin)"
      using run g nb ln by (subst (asm) encode_loop.simps) (simp add: Let_def)
    have fn1: "enc_frame_number ?s1 < 4" by simp
    from "1.IH" [OF g nb refl refl refl ln run1 fn1 "1.prems"(3)]
    obtain k where k:
      "enc_buffer_cnt s' = enc_buffer_cnt ?s1 + 60 * k"
      "length (enc_buffer s') = length (enc_buffer ?s1)"
      "enc_frame_number s' = (enc_frame_number ?s1 + k) mod 4"
      "take (enc_buffer_cnt ?s1) (enc_buffer s') = take (enc_buffer_cnt ?s1) (enc_buffer ?s1)"
      "\<forall>j\<ge>enc_buffer_cnt s'. j < length (enc_buffer ?s1) \<longrightarrow> enc_buffer s' ! j = enc_buffer ?s1 ! j"
      "\<forall>i<k. frame_ok sync (enc_buffer ?s1) (enc_buffer s') (enc_buffer_cnt ?s1 + 60 * i)
                       (enc_frame_number ?s1 + i)"
      by blast
    let ?cnt = "enc_buffer_cnt s"
    let ?buf = "enc_buffer s"
    have fits: "?cnt + 59 \<le> length ?buf" and fn: "enc_frame_number s < 4"
      using nb by (simp_all add: SCO_H2_FRAME_LEN_def SCO_H2_HDR_LEN_def MSBC_FRAME_LEN_def
          h2_header_frame_number_def)
    have lpay: "length ?payload \<le> 57"
      by (simp add: MSBC_FRAME_LEN_def length_msbc_zero)
    have lbytes: "length ?bytes = 2 + length ?payload" by simp
    have inb: "?cnt + length ?bytes \<le> length ?buf" using fits lpay by simp
    have len1: "length ?buf1 = length ?buf" using inb by (rule length_write_at)
    have cnt1: "enc_buffer_cnt ?s1 = ?cnt + 60" by (simp add: sizeof_msbc_frame_def
          SCO_H2_HDR_LEN_def MSBC_FRAME_LEN_def)
    have buf1: "enc_buffer ?s1 = ?buf1" by simp
    have low: "\<And>j. j < ?cnt + 60 \<Longrightarrow> j < length ?buf \<Longrightarrow> enc_buffer s' ! j = ?buf1 ! j"
    proof -
      fix j assume j: "j < ?cnt + 60" "j < length ?buf"
      have "enc_buffer s' ! j = take (?cnt + 60) (enc_buffer s') ! j" using j by simp
      also have "\<dots> = take (?cnt + 60) ?buf1 ! j" using k(4) by (simp only: cnt1 buf1)
      also have "\<dots> = ?buf1 ! j" using j by simp
      finally show "enc_buffer s' ! j = ?buf1 ! j" .
    qed
    have b0: "?buf1 ! ?cnt = 0x01"
      using nth_write_at_in [of 0 ?bytes ?cnt ?buf] fits by (simp add: SCO_H2_HDR_0_def)
    have b1: "?buf1 ! (?cnt + 1) = h2_header_frame_number ! enc_frame_number s"
      using nth_write_at_in [of 1 ?bytes ?cnt ?buf] fits by simp
    have b2: "sync \<Longrightarrow> ?buf1 ! (?cnt + 2) = 0xAD"
    proof -
      assume sync
      then have "sil \<or> take 1 (snd (snd ?r)) = [MSBC_SYNC]" using "1.prems"(3) ln by auto
      then have "take 1 ?payload = [0xAD]"
        by (auto simp: MSBC_FRAME_LEN_def MSBC_SYNC_def msbc_zero_def)
      then have "?payload \<noteq> [] \<and> ?payload ! 0 = 0xAD"
        by (cases ?payload) auto
      then have "2 < length ?bytes" "?bytes ! 2 = 0xAD" by auto
      with nth_write_at_in [of 2 ?bytes ?cnt ?buf] fits show ?thesis by simp
    qed
    have pad: "?cnt + 59 < length ?buf \<Longrightarrow> ?buf1 ! (?cnt + 59) = ?buf ! (?cnt + 59)"
      using lpay by (intro nth_write_at_after) simp_all
    have f0: "frame_ok sync ?buf (enc_buffer s') ?cnt (enc_frame_number s)"
      unfolding frame_ok_def using low b0 b1 b2 pad fits fn by simp
    have fi: "frame_ok sync ?buf (enc_buffer s') (?cnt + 60 * Suc i) (enc_frame_number s + Suc i)"
      if "i < k" for i
    proof -
      define B where "B = ?cnt + 60 * Suc i"
      have Beq: "enc_buffer_cnt ?s1 + 60 * i = B" unfolding B_def cnt1 by simp
      from k(6) that have "frame_ok sync (enc_buffer ?s1) (enc_buffer s') (enc_buffer_cnt ?s1 + 60 * i)
                       (enc_frame_number ?s1 + i)" by blast
      then have fo: "frame_ok sync ?buf1 (enc_buffer s') B ((enc_frame_number s + 1) mod 4 + i)"
        unfolding Beq by simp
      have m: "((enc_frame_number s + 1) mod 4 + i) mod 4 = (enc_frame_number s + Suc i) mod 4"
        by presburger
      have after: "B + 59 < length ?buf \<Longrightarrow> ?buf1 ! (B + 59) = ?buf ! (B + 59)"
        using lpay unfolding B_def by (intro nth_write_at_after) simp_all
      from fo after show ?thesis
        unfolding frame_ok_def m len1 B_def [symmetric] by auto
    qed
    have all: "\<forall>i<Suc k. frame_ok sync ?buf (enc_buffer s') (?cnt + 60 * i) (enc_frame_number s + i)"
    proof (intro allI impI)
      fix i assume "i < Suc k"
      then show "frame_ok sync ?buf (enc_buffer s') (?cnt + 60 * i) (enc_frame_number s + i)"
        using f0 fi by (cases i) auto
    qed
    have pre: "take ?cnt (enc_buffer s') = take ?cnt ?buf"
    proof -
      have "take ?cnt (enc_buffer s') = take ?cnt (take (?cnt + 60) (enc_buffer s'))" by simp
      also have "\<dots> = take ?cnt (take (?cnt + 60) ?buf1)" using k(4) by (simp only: cnt1 buf1)
      also have "\<dots> = take ?cnt ?buf1" by simp
      also have "\<dots> = take ?cnt ?buf" using fits by (intro take_write_at) simp_all
      finally show ?thesis .
    qed
    have rest: "\<forall>j\<ge>enc_buffer_cnt s'. j < length ?buf \<longrightarrow> enc_buffer s' ! j = ?buf ! j"
    proof (intro allI impI)
      fix j assume j: "enc_buffer_cnt s' \<le> j" "j < length ?buf"
      then have "enc_buffer s' ! j = ?buf1 ! j" using k(5) len1 by (simp only: buf1)
      also have "\<dots> = ?buf ! j" using j k(1) lpay cnt1 by (intro nth_write_at_after) simp_all
      finally show "enc_buffer s' ! j = ?buf ! j" .
    qed
    have "enc_buffer_cnt s' = ?cnt + 60 * Suc k" using k(1) cnt1 by simp
    moreover have "length (enc_buffer s') = length ?buf" using k(2) len1 by (simp only: buf1)
    moreover have "enc_frame_number s' = (enc_frame_number s + Suc k) mod 4"
      using k(3) by (simp add: mod_simps)
    ultimately show ?thesis using pre rest all by blast
  qed
qed

lemma encode_frames_buffer:
  assumes "iothread_encode_msbc_frames E sil s = Inr s'"
  shows "\<exists>l c fin. encode_loop E sil s 0 = Inr (l, c, fin) \<and> enc_buffer s' = enc_buffer l
          \<and> enc_buffer_cnt s' = enc_buffer_cnt l \<and> enc_frame_number s' = enc_frame_number l"
  using assms
  by (auto simp: iothread_encode_msbc_frames_def Let_def split: sum.splits prod.splits if_splits)

lemma write_encoded_prefix:
  assumes "iothread_write_encoded_data wr s len = Inr (r, s', out)"
  shows "out = take (length out) (enc_buffer s)"
  using assms
  by (auto simp: iothread_write_encoded_data_def Let_def split: if_splits sum.splits)

lemma write_encoded_pin:
  assumes run: "iothread_write_encoded_data wr s len = Inr (r, s', out)"
    and fits: "write_fits len wr"
    and size: "enc_buffer_cnt s < 18446744073709551616"
  shows "out @ take (enc_buffer_cnt s') (enc_buffer s') = take (enc_buffer_cnt s) (enc_buffer s)
         \<and> enc_buffer_cnt s' \<le> enc_buffer_cnt s"
proof (cases "enc_buffer_cnt s < len")
  case True
  then show ?thesis using run by (simp add: iothread_write_encoded_data_def)
next
  case ge: False
  show ?thesis
  proof (cases wr)
    case (Inl e)
    then show ?thesis using run ge
      by (simp add: iothread_write_encoded_data_def split: if_splits)
  next
    case (Inr written)
    then have wl: "written \<le> len" using fits by (simp add: write_fits_def)
    then have wc: "written \<le> enc_buffer_cnt s" using ge by simp
    have n: "size_sub (enc_buffer_cnt s) written = enc_buffer_cnt s - written"
      using wc size by (rule size_sub_le)
    let ?n = "enc_buffer_cnt s - written"
    from run ge Inr n have inb: "written + ?n \<le> length (enc_buffer s)"
      and s': "s' = s\<lparr>enc_buffer := write_at (enc_buffer s) 0
                                                  (take ?n (drop written (enc_buffer s))),
                                enc_buffer_cnt := ?n\<rparr>"
      and out: "out = take written (enc_buffer s)"
      by (auto simp: iothread_write_encoded_data_def Let_def split: if_splits)
    have cl: "enc_buffer_cnt s \<le> length (enc_buffer s)" using inb wc by simp
    have l: "length (take ?n (drop written (enc_buffer s))) = ?n" using inb by simp
    have "take ?n (write_at (enc_buffer s) 0 (take ?n (drop written (enc_buffer s))))
            = take ?n (drop written (enc_buffer s))"
      unfolding write_at_def using l by simp
    then have "out @ take (enc_buffer_cnt s') (enc_buffer s')
            = take written (enc_buffer s) @ take ?n (drop written (enc_buffer s))"
      unfolding s' out by simp
    also have "\<dots> = take (written + ?n) (enc_buffer s)" by (simp add: take_add)
    also have "\<dots> = take (enc_buffer_cnt s) (enc_buffer s)" using wc by simp
    finally show ?thesis unfolding s' by simp
  qed
qed

lemma write_encoded_stream_pin:
  assumes "write_encoded_stream wrs s len = Inr (s', out)"
    and "list_all (write_fits len) wrs"
    and "enc_buffer_cnt s < 18446744073709551616"
  shows "out @ take (enc_buffer_cnt s') (enc_buffer s') = take (enc_buffer_cnt s) (enc_buffer s)"
  using assms
proof (induction wrs arbitrary: s s' out)
  case Nil
  then show ?case by simp
next
  case (Cons wr wrs)
  from Cons.prems(1) obtain r s1 o1 o2 where
    a: "iothread_write_encoded_data wr s len = Inr (r, s1, o1)"
    and b: "write_encoded_stream wrs s1 len = Inr (s', o2)" and o: "out = o1 @ o2"
    by (auto split: sum.splits prod.splits)
  from Cons.prems(2) have f: "write_fits len wr" "list_all (write_fits len) wrs" by simp_all
  from write_encoded_pin [OF a f(1) Cons.prems(3)]
  have p: "o1 @ take (enc_buffer_cnt s1) (enc_buffer s1) = take (enc_buffer_cnt s) (enc_buffer s)"
    and c: "enc_buffer_cnt s1 \<le> enc_buffer_cnt s" by simp_all
  from c Cons.prems(3) have "enc_buffer_cnt s1 < 18446744073709551616" by simp
  from Cons.IH [OF b f(2) this] p show ?case unfolding o by simp
qed

lemma prefix_nth:
  assumes "out @ rest = take n buf" and "i < length out"
  shows "out ! i = buf ! i"
proof -
  have "out ! i = (out @ rest) ! i" using assms(2) by (simp add: nth_append)
  also have "\<dots> = take n buf ! i" using assms(1) by simp
  also have "\<dots> = buf ! i"
  proof -
    have "i < length (take n buf)" using assms by (metis length_append trans_less_add1)
    then show ?thesis by simp
  qed
  finally show ?thesis .
qed

text \<open>
  C3 (as amended). Every frame that \<open>iothread_encode_msbc_frames\<close> appends to the encoder
  output buffer, and hence every frame emitted on the SCO socket, takes 60 bytes, the size
  of \<open>struct msbc_frame\<close>: byte 0 is 0x01, byte 1 goes through 0x08, 0x38, 0xC8, 0xF8 by
  the 2-bit sequence counter, byte 2 is 0xAD (the first byte libsbc stores, or of the silent
  frame in a SILENCE build), and the last byte is padding that the function does not write.
  Frames follow each other at a stride of 60 and the data already in the buffer stays.
  Successive calls of \<open>iothread_write_encoded_data\<close>, where \<open>write\<close> takes no more
  than it is given and the count of waiting bytes is in the range of \<open>size_t\<close>, emit the
  bytes of the buffer in order, each once: what has been emitted, followed by what is still
  waiting, is what was waiting after the encoding. So in the emitted byte stream the frames
  are contiguous at the same stride of 60 bytes.
\<close>

theorem msbc_frames_appended:
  assumes run: "iothread_encode_msbc_frames sbc_encode silence sbc = Inr sbc'"
    and fn: "enc_frame_number sbc < 4"
    and sync: "silence \<or> (\<forall>e pcm room. 0 \<le> fst (snd (sbc_encode e pcm room)) \<longrightarrow>
                 take 1 (snd (snd (sbc_encode e pcm room))) = [MSBC_SYNC])"
  shows "\<exists>k. enc_buffer_cnt sbc' = enc_buffer_cnt sbc + 60 * k
          \<and> enc_frame_number sbc' = (enc_frame_number sbc + k) mod 4
          \<and> take (enc_buffer_cnt sbc) (enc_buffer sbc') = take (enc_buffer_cnt sbc) (enc_buffer sbc)
          \<and> (\<forall>i<k. enc_buffer sbc' ! (enc_buffer_cnt sbc + 60 * i) = 0x01
                 \<and> enc_buffer sbc' ! (enc_buffer_cnt sbc + 60 * i + 1)
                     = [0x08, 0x38, 0xC8, 0xF8] ! ((enc_frame_number sbc + i) mod 4)
                 \<and> enc_buffer sbc' ! (enc_buffer_cnt sbc + 60 * i + 2) = 0xAD
                 \<and> (enc_buffer_cnt sbc + 60 * i + 59 < length (enc_buffer sbc) \<longrightarrow>
                      enc_buffer sbc' ! (enc_buffer_cnt sbc + 60 * i + 59)
                        = enc_buffer sbc ! (enc_buffer_cnt sbc + 60 * i + 59)))
          \<and> (\<forall>wr len r st out. iothread_write_encoded_data wr sbc' len = Inr (r, st, out) \<longrightarrow>
                 out = take (length out) (enc_buffer sbc'))
          \<and> (\<forall>wrs len st out.
                 write_encoded_stream wrs sbc' len = Inr (st, out)
                 \<and> list_all (write_fits len) wrs
                 \<and> enc_buffer_cnt sbc' < 18446744073709551616 \<longrightarrow>
                   out @ take (enc_buffer_cnt st) (enc_buffer st)
                     = take (enc_buffer_cnt sbc') (enc_buffer sbc')
                   \<and> (\<forall>j<length out. out ! j = enc_buffer sbc' ! j)
                   \<and> (\<forall>i<k. \<forall>j<3. enc_buffer_cnt sbc + 60 * i + j < length out \<longrightarrow>
                          out ! (enc_buffer_cnt sbc + 60 * i + j)
                            = [0x01, [0x08, 0x38, 0xC8, 0xF8] ! ((enc_frame_number sbc + i) mod 4),
                               0xAD] ! j))"
proof -
  from encode_frames_buffer [OF run] obtain l c fin where
    l: "encode_loop sbc_encode silence sbc 0 = Inr (l, c, fin)" "enc_buffer sbc' = enc_buffer l"
       "enc_buffer_cnt sbc' = enc_buffer_cnt l" "enc_frame_number sbc' = enc_frame_number l"
    by blast
  have "True \<longrightarrow> silence \<or> (\<forall>e pcm room. 0 \<le> fst (snd (sbc_encode e pcm room)) \<longrightarrow>
                 take 1 (snd (snd (sbc_encode e pcm room))) = [MSBC_SYNC])"
    using sync by blast
  from encode_loop_frames [OF l(1) fn this] obtain k where k:
    "enc_buffer_cnt l = enc_buffer_cnt sbc + 60 * k"
    "enc_frame_number l = (enc_frame_number sbc + k) mod 4"
    "take (enc_buffer_cnt sbc) (enc_buffer l) = take (enc_buffer_cnt sbc) (enc_buffer sbc)"
    "\<forall>i<k. frame_ok True (enc_buffer sbc) (enc_buffer l) (enc_buffer_cnt sbc + 60 * i)
                       (enc_frame_number sbc + i)"
    by blast
  let ?cnt = "enc_buffer_cnt sbc"
  let ?hdr = "\<lambda>i. [0x08, 0x38, 0xC8, 0xF8] ! ((enc_frame_number sbc + i) mod 4) :: u8"
  have frames: "\<forall>i<k. enc_buffer sbc' ! (?cnt + 60 * i) = 0x01
                 \<and> enc_buffer sbc' ! (?cnt + 60 * i + 1) = ?hdr i
                 \<and> enc_buffer sbc' ! (?cnt + 60 * i + 2) = 0xAD
                 \<and> (?cnt + 60 * i + 59 < length (enc_buffer sbc) \<longrightarrow>
                      enc_buffer sbc' ! (?cnt + 60 * i + 59) = enc_buffer sbc ! (?cnt + 60 * i + 59))"
    using k(4) unfolding l(2) frame_ok_def h2_header_frame_number_def by simp
  have one: "\<forall>wr len r st out. iothread_write_encoded_data wr sbc' len = Inr (r, st, out) \<longrightarrow>
                 out = take (length out) (enc_buffer sbc')"
    using write_encoded_prefix by blast
  have stream: "out @ take (enc_buffer_cnt st) (enc_buffer st)
                     = take (enc_buffer_cnt sbc') (enc_buffer sbc')
                   \<and> (\<forall>j<length out. out ! j = enc_buffer sbc' ! j)
                   \<and> (\<forall>i<k. \<forall>j<3. ?cnt + 60 * i + j < length out \<longrightarrow>
                          out ! (?cnt + 60 * i + j) = [0x01, ?hdr i, 0xAD] ! j)"
    if w: "write_encoded_stream wrs sbc' len = Inr (st, out)"
      and f: "list_all (write_fits len) wrs"
      and sz: "enc_buffer_cnt sbc' < 18446744073709551616"
    for wrs len st out
  proof -
    note pin = write_encoded_stream_pin [OF w f sz]
    have nth: "out ! j = enc_buffer sbc' ! j" if "j < length out" for j
      using pin that by (rule prefix_nth)
    have fr: "out ! (?cnt + 60 * i + j) = [0x01, ?hdr i, 0xAD] ! j"
      if i: "i < k" and j: "j < 3" and b: "?cnt + 60 * i + j < length out" for i j
    proof -
      from frames i have fb:
        "enc_buffer sbc' ! (?cnt + 60 * i) = 0x01"
        "enc_buffer sbc' ! (?cnt + 60 * i + 1) = ?hdr i"
        "enc_buffer sbc' ! (?cnt + 60 * i + 2) = 0xAD"
        by blast+
      from j consider "j = 0" | "j = 1" | "j = 2" by arith
      then show ?thesis using fb unfolding nth [OF b] by cases simp_all
    qed
    from pin nth fr show ?thesis by blast
  qed
  from k(1,2,3) have base: "enc_buffer_cnt sbc' = ?cnt + 60 * k"
    "enc_frame_number sbc' = (enc_frame_number sbc + k) mod 4"
    "take ?cnt (enc_buffer sbc') = take ?cnt (enc_buffer sbc)"
    unfolding l(2,3,4) by simp_all
  show ?thesis
    using base frames one stream by (intro exI [of _ k]) blast
qed

lemma msbc_zero_sync: "take 1 msbc_zero = [0xAD]" "msbc_zero ! 0 = 0xAD"
  by (simp_all add: msbc_zero_def)

lemmas msbc_eval = iothread_encode_msbc_frames_def encode_loop.simps SCO_H2_FRAME_LEN_def
  SCO_H2_HDR_LEN_def MSBC_FRAME_LEN_def sizeof_msbc_frame_def SCO_H2_HDR_0_def size_sub_def
  size_of_ssize_def h2_header_frame_number_def sbc_state_example_def encode_example_def Let_def
  write_at_def length_msbc_zero nth_append msbc_zero_sync

theorem msbc_frames_appended_witness:
  "\<exists>s' st out. iothread_encode_msbc_frames encode_example False sbc_state_example = Inr s'
     \<and> write_encoded_stream [Inr 24, Inl EAGAIN, Inr 24, Inr 24] s' 24 = Inr (st, out)
     \<and> length out = 72 \<and> enc_buffer_cnt s' = 120
     \<and> (\<exists>k. enc_buffer_cnt s' = enc_buffer_cnt sbc_state_example + 60 * k
          \<and> enc_frame_number s' = (enc_frame_number sbc_state_example + k) mod 4
          \<and> take (enc_buffer_cnt sbc_state_example) (enc_buffer s')
              = take (enc_buffer_cnt sbc_state_example) (enc_buffer sbc_state_example)
          \<and> (\<forall>i<k. enc_buffer s' ! (enc_buffer_cnt sbc_state_example + 60 * i) = 0x01
                 \<and> enc_buffer s' ! (enc_buffer_cnt sbc_state_example + 60 * i + 1)
                     = [0x08, 0x38, 0xC8, 0xF8] ! ((enc_frame_number sbc_state_example + i) mod 4)
                 \<and> enc_buffer s' ! (enc_buffer_cnt sbc_state_example + 60 * i + 2) = 0xAD
                 \<and> (enc_buffer_cnt sbc_state_example + 60 * i + 59
                        < length (enc_buffer sbc_state_example) \<longrightarrow>
                      enc_buffer s' ! (enc_buffer_cnt sbc_state_example + 60 * i + 59)
                        = enc_buffer sbc_state_example
                            ! (enc_buffer_cnt sbc_state_example + 60 * i + 59)))
          \<and> out @ take (enc_buffer_cnt st) (enc_buffer st)
              = take (enc_buffer_cnt s') (enc_buffer s')
          \<and> (\<forall>j<length out. out ! j = enc_buffer s' ! j)
          \<and> (\<forall>i<k. \<forall>j<3. enc_buffer_cnt sbc_state_example + 60 * i + j < length out \<longrightarrow>
                 out ! (enc_buffer_cnt sbc_state_example + 60 * i + j)
                   = [0x01, [0x08, 0x38, 0xC8, 0xF8]
                              ! ((enc_frame_number sbc_state_example + i) mod 4), 0xAD] ! j))"
proof -
  have "\<exists>s' st out. iothread_encode_msbc_frames encode_example False sbc_state_example = Inr s'
     \<and> enc_buffer_cnt s' = 120
     \<and> write_encoded_stream [Inr 24, Inl EAGAIN, Inr 24, Inr 24] s' 24 = Inr (st, out)
     \<and> length out = 72"
    by (simp add: msbc_eval iothread_write_encoded_data_def)
  then obtain s' st out where
    run: "iothread_encode_msbc_frames encode_example False sbc_state_example = Inr s'"
    and cnt: "enc_buffer_cnt s' = 120"
    and w: "write_encoded_stream [Inr 24, Inl EAGAIN, Inr 24, Inr 24] s' 24 = Inr (st, out)"
    and lo: "length out = 72"
    by blast
  have fn: "enc_frame_number sbc_state_example < 4" by (simp add: sbc_state_example_def)
  have sync: "False \<or> (\<forall>e pcm room. 0 \<le> fst (snd (encode_example e pcm room)) \<longrightarrow>
                 take 1 (snd (snd (encode_example e pcm room))) = [MSBC_SYNC])"
    by (simp add: encode_example_def MSBC_SYNC_def msbc_zero_def)
  have fits: "list_all (write_fits 24) [Inr 24, Inl EAGAIN, Inr 24, Inr 24]"
    by (simp add: write_fits_def)
  have sz: "enc_buffer_cnt s' < 18446744073709551616" using cnt by simp
  from msbc_frames_appended [OF run fn sync] obtain k where
    a: "enc_buffer_cnt s' = enc_buffer_cnt sbc_state_example + 60 * k"
      "enc_frame_number s' = (enc_frame_number sbc_state_example + k) mod 4"
      "take (enc_buffer_cnt sbc_state_example) (enc_buffer s')
         = take (enc_buffer_cnt sbc_state_example) (enc_buffer sbc_state_example)"
      "\<forall>i<k. enc_buffer s' ! (enc_buffer_cnt sbc_state_example + 60 * i) = 0x01
                 \<and> enc_buffer s' ! (enc_buffer_cnt sbc_state_example + 60 * i + 1)
                     = [0x08, 0x38, 0xC8, 0xF8] ! ((enc_frame_number sbc_state_example + i) mod 4)
                 \<and> enc_buffer s' ! (enc_buffer_cnt sbc_state_example + 60 * i + 2) = 0xAD
                 \<and> (enc_buffer_cnt sbc_state_example + 60 * i + 59
                        < length (enc_buffer sbc_state_example) \<longrightarrow>
                      enc_buffer s' ! (enc_buffer_cnt sbc_state_example + 60 * i + 59)
                        = enc_buffer sbc_state_example
                            ! (enc_buffer_cnt sbc_state_example + 60 * i + 59))"
    and b: "\<forall>wrs len st out.
                 write_encoded_stream wrs s' len = Inr (st, out)
                 \<and> list_all (write_fits len) wrs
                 \<and> enc_buffer_cnt s' < 18446744073709551616 \<longrightarrow>
                   out @ take (enc_buffer_cnt st) (enc_buffer st)
                     = take (enc_buffer_cnt s') (enc_buffer s')
                   \<and> (\<forall>j<length out. out ! j = enc_buffer s' ! j)
                   \<and> (\<forall>i<k. \<forall>j<3. enc_buffer_cnt sbc_state_example + 60 * i + j < length out \<longrightarrow>
                          out ! (enc_buffer_cnt sbc_state_example + 60 * i + j)
                            = [0x01, [0x08, 0x38, 0xC8, 0xF8]
                                       ! ((enc_frame_number sbc_state_example + i) mod 4),
                               0xAD] ! j)"
    by blast
  from b w fits sz have
    c: "out @ take (enc_buffer_cnt st) (enc_buffer st) = take (enc_buffer_cnt s') (enc_buffer s')
        \<and> (\<forall>j<length out. out ! j = enc_buffer s' ! j)
        \<and> (\<forall>i<k. \<forall>j<3. enc_buffer_cnt sbc_state_example + 60 * i + j < length out \<longrightarrow>
                          out ! (enc_buffer_cnt sbc_state_example + 60 * i + j)
                            = [0x01, [0x08, 0x38, 0xC8, 0xF8]
                                       ! ((enc_frame_number sbc_state_example + i) mod 4),
                               0xAD] ! j)"
    by blast
  show ?thesis
    by (intro exI [of _ s'] exI [of _ st] exI [of _ out] exI [of _ k] conjI run w lo cnt a c
          conjunct1 [OF c] conjunct1 [OF conjunct2 [OF c]] conjunct2 [OF conjunct2 [OF c]])
qed

text \<open>
  C3 as stated fails: two frames encoded into an empty buffer take 120 bytes, byte 59 is
  the padding of the first frame and the second frame starts at byte 60; three writes of
  24 bytes emit the same bytes, with the second frame at byte 60 of the stream.
\<close>

theorem msbc_frame_stride_counterexample:
  "\<exists>s st out. iothread_encode_msbc_frames encode_example False sbc_state_example = Inr s
   \<and> enc_buffer_cnt sbc_state_example = 0 \<and> enc_buffer_cnt s = 120 \<and> enc_frame_number s = 2
   \<and> enc_buffer s ! 0 = 0x01 \<and> enc_buffer s ! 1 = 0x08 \<and> enc_buffer s ! 2 = 0xAD
   \<and> enc_buffer s ! 59 = 0x00
   \<and> enc_buffer s ! 60 = 0x01 \<and> enc_buffer s ! 61 = 0x38 \<and> enc_buffer s ! 62 = 0xAD
   \<and> write_encoded_stream [Inr 24, Inr 24, Inr 24] s 24 = Inr (st, out)
   \<and> length out = 72
   \<and> out ! 0 = 0x01 \<and> out ! 1 = 0x08 \<and> out ! 2 = 0xAD
   \<and> out ! 59 = 0x00
   \<and> out ! 60 = 0x01 \<and> out ! 61 = 0x38 \<and> out ! 62 = 0xAD"
  by (simp add: msbc_eval iothread_write_encoded_data_def)

section \<open>Properties of worker start-up\<close>

text \<open>
  C8 (as amended). An A2DP sink worker (SBC or AAC) whose transport has the BT socket
  \<open>-1\<close> or a reading MTU of 0 at start-up leaves through \<open>fail_init\<close> (\<open>fail_open\<close>):
  \<open>io_thread_release\<close> is the only clean-up routine that runs, it calls the release
  callback when one is set, and the IO loop is not entered.
\<close>

theorem sink_start_invalid_transport:
  assumes "bt_fd t = - 1 \<or> mtu_read t = 0"
  shows "io_thread_a2dp_sink_sbc_start t env = Exit_thread (io_thread_release t)
       \<and> io_thread_a2dp_sink_aac_start t env = Exit_thread (io_thread_release t)
       \<and> (release t \<longrightarrow> io_thread_release t = [Release_callback])"
  using assms
  by (auto simp: io_thread_a2dp_sink_sbc_start_def io_thread_a2dp_sink_aac_start_def
        io_thread_release_def)

theorem sink_start_invalid_transport_witness:
  "io_thread_a2dp_sink_sbc_start transport_example init_env_example = Exit_thread [Release_callback]
   \<and> io_thread_a2dp_sink_aac_start transport_example init_env_example = Exit_thread [Release_callback]"
  using sink_start_invalid_transport [of transport_example init_env_example]
  by (simp add: transport_example_def io_thread_release_def)

text \<open>
  C8 as stated fails for the other workers: with the BT socket \<open>-1\<close> and both MTUs 0 the
  A2DP source workers and the RFCOMM and SCO workers reach their loops.
\<close>

theorem worker_start_counterexample:
  "bt_fd transport_example = - 1 \<and> mtu_read transport_example = 0 \<and> mtu_write transport_example = 0
   \<and> io_thread_a2dp_source_sbc_start transport_example init_env_example = Enter_loop
   \<and> io_thread_a2dp_source_aac_start transport_example init_env_example = Enter_loop
   \<and> io_thread_rfcomm_start transport_example init_env_example = Enter_loop
   \<and> io_thread_sco_start transport_example init_env_example = Enter_loop"
  by (simp add: transport_example_def init_env_example_def io_thread_a2dp_source_sbc_start_def
        io_thread_a2dp_source_aac_start_def io_thread_rfcomm_start_def io_thread_sco_start_def
        io_thread_open_pcm_read_def)

section \<open>Properties of the AAC fragmentation loop\<close>

lemma frag_last_step:
  assumes "0 < plen" and "plen \<le> pmax" and "hl + plen \<le> length buf"
    and "length buf < 18446744073709551616"
  shows "aac_fragments pmax hl hdr (all_written # ws) seq buf plen
      = Inr ([(hdr\<lparr>rtp_markbit := plen < pmax, rtp_seq_number := seq + 1,
                     rtp_payload := take plen buf\<rparr>, Written (hl + plen))], Sent, seq + 1, buf)"
proof -
  have a: "size_sub (hl + plen) hl = plen"
    using assms(3,4) by (subst size_sub_le) simp_all
  have b: "size_sub plen plen = 0"
    using assms(3,4) by (subst size_sub_le) simp_all
  have c: "\<not> pmax < plen" "\<not> length buf < plen" using assms by simp_all
  show ?thesis
    by (simp add: all_written_def Let_def a b c)
qed

lemma frag_full_step:
  assumes "pmax < plen" and "hl + plen \<le> length buf"
    and "length buf < 18446744073709551616"
    and rec: "aac_fragments pmax hl hdr ws (seq + 1)
                (write_at buf 0 (take (plen - pmax) (drop (hl + pmax) buf))) (plen - pmax)
              = Inr (ps, st, sq, b)"
  shows "aac_fragments pmax hl hdr (all_written # ws) seq buf plen
      = Inr ((hdr\<lparr>rtp_markbit := False, rtp_seq_number := seq + 1,
                        rtp_payload := take pmax buf\<rparr>, Written (hl + pmax)) # ps, st, sq, b)"
proof -
  have a: "size_sub (hl + pmax) hl = pmax"
    using assms by (subst size_sub_le) simp_all
  have b: "size_sub plen pmax = plen - pmax"
    using assms by (subst size_sub_le) simp_all
  have c: "\<not> length buf < pmax" "\<not> length buf < hl + plen" "plen - pmax \<noteq> 0"
    using assms by simp_all
  have w: "all_written (hl + pmax) = Written (hl + pmax)" by (simp add: all_written_def)
  show ?thesis
    using assms(1) by (simp add: Let_def w a b c rec)
qed


lemma aac_fragments_second_offset:
  assumes big: "pmax < plen" and two: "plen \<le> 2 * pmax" and fit: "hl + plen \<le> length buf"
    and size: "length buf < 18446744073709551616"
  shows "aac_fragments pmax hl hdr (all_written # all_written # ws) seq buf plen
      = Inr ([(hdr\<lparr>rtp_markbit := False, rtp_seq_number := seq + 1,
                     rtp_payload := take pmax buf\<rparr>, Written (hl + pmax)),
              (hdr\<lparr>rtp_markbit := plen - pmax < pmax, rtp_seq_number := seq + 1 + 1,
                     rtp_payload := take (plen - pmax) (drop (hl + pmax) buf)\<rparr>,
               Written (hl + (plen - pmax)))],
             Sent, seq + 1 + 1, write_at buf 0 (take (plen - pmax) (drop (hl + pmax) buf)))"
proof -
  let ?rest = "take (plen - pmax) (drop (hl + pmax) buf)"
  let ?buf1 = "write_at buf 0 ?rest"
  have lr: "length ?rest = plen - pmax" using big fit by simp
  have len1: "length ?buf1 = length buf" using big fit by (subst length_write_at) simp_all
  have tk: "take (plen - pmax) ?buf1 = ?rest" unfolding write_at_def using lr by simp
  have p1: "0 < plen - pmax" using big by simp
  have p2: "plen - pmax \<le> pmax" using two by simp
  have p3: "hl + (plen - pmax) \<le> length ?buf1" using fit len1 by simp
  have p4: "length ?buf1 < 18446744073709551616" using size len1 by simp
  note last = frag_last_step [OF p1 p2 p3 p4, of hdr ws "seq + 1", unfolded tk]
  from frag_full_step [OF big fit size last] show ?thesis .
qed

text \<open>
  C1. The fragmentation loop does not transmit the audioMuxElement. After a fragment is
  written, \<open>memmove(out_payload, out_payload + ret, payload_len)\<close> takes the rest from
  the offset \<open>ret\<close>, which counts the RTP header as well as the payload written, so the
  next fragment starts \<open>rtp_header_len\<close> bytes too far. With a writing MTU of 16, a
  header of 12 bytes and an element of 10 bytes (the bytes 0 to 9 of a payload buffer that
  holds 0 to 23), the three packets carry the bytes 0 to 3, then 16 to 19, then 16 and 17:
  the bytes 4 to 9 of the element are never sent. The sequence numbers go up by one, and
  the marker is set on the last packet only.
\<close>

theorem aac_fragments_rest_offset:
  "aac_fragments (size_sub 16 12) 12 (rtp_header_init\<lparr>rtp_timestamp := 1000\<rparr>)
     [all_written, all_written, all_written] 7
     [0, 1, 2, 3, 4, 5, 6, 7, 8, 9, 10, 11, 12, 13, 14, 15, 16, 17, 18, 19, 20, 21, 22, 23] 10
   = Inr ([(\<lparr>rtp_version = 2, rtp_paytype = 96, rtp_markbit = False, rtp_seq_number = 8,
              rtp_timestamp = 1000, rtp_frame_count = None, rtp_payload = [0, 1, 2, 3]\<rparr>,
            Written 16),
           (\<lparr>rtp_version = 2, rtp_paytype = 96, rtp_markbit = False, rtp_seq_number = 9,
              rtp_timestamp = 1000, rtp_frame_count = None, rtp_payload = [16, 17, 18, 19]\<rparr>,
            Written 16),
           (\<lparr>rtp_version = 2, rtp_paytype = 96, rtp_markbit = True, rtp_seq_number = 10,
              rtp_timestamp = 1000, rtp_frame_count = None, rtp_payload = [16, 17]\<rparr>,
            Written 14)],
          Sent, 10,
          [16, 17, 18, 19, 20, 21, 6, 7, 8, 9, 10, 11, 12, 13, 14, 15, 16, 17, 18, 19, 20, 21,
           22, 23])"
  by (simp add: size_sub_def all_written_def rtp_header_init_def write_at_def Let_def)

section \<open>Properties of the A2DP source workers\<close>















end
